theory Spec2Isabelle
  imports Main "HOL-Library.Log_Nat" "HOL-Library.Word" "HOL-Library.AList" "HOL-Library.Multiset"
begin

section \<open>Python floats\<close>

text \<open>
  A Python \<open>float\<close> is an IEEE 754 binary64 value. A finite value is kept as the rational
  it denotes (\<open>Finite 0\<close> is \<open>+0.0\<close>, \<open>NegZero\<close> is \<open>-0.0\<close>); every arithmetic
  result is rounded to the nearest double, ties to even, by \<open>rnd\<close>.
\<close>

datatype pyfloat = Finite rat | NegZero | PosInf | NegInf | NaN

definition pow2 :: "int \<Rightarrow> rat" where
  "pow2 k = (if 0 \<le> k then 2 ^ nat k else 1 / 2 ^ nat (- k))"

text \<open>The binary exponent of a positive rational: \<open>2 ^ ilog2 x \<le> x < 2 ^ (ilog2 x + 1)\<close>.\<close>

definition ilog2 :: "rat \<Rightarrow> int" where
  "ilog2 x = (let (p, q) = quotient_of x; e = bitlen p - bitlen q
              in if pow2 e \<le> x then e else e - 1)"

definition round_half_even :: "rat \<Rightarrow> int" where
  "round_half_even r =
     (let f = \<lfloor>r\<rfloor>; d = r - of_int f
      in if d < 1 / 2 then f else if 1 / 2 < d then f + 1 else if even f then f else f + 1)"

definition signed_zero :: "bool \<Rightarrow> pyfloat" where
  "signed_zero neg = (if neg then NegZero else Finite 0)"

definition signed_inf :: "bool \<Rightarrow> pyfloat" where
  "signed_inf neg = (if neg then NegInf else PosInf)"

text \<open>
  Rounding an exact result to binary64: 53 significant bits, the exponent of the last
  place never below \<open>-1074\<close> (subnormals), overflow to an infinity from the midpoint
  between the largest double and \<open>2 ^ 1024\<close> on, underflow to a zero of the same sign.
\<close>

definition rnd :: "rat \<Rightarrow> pyfloat" where
  "rnd x =
     (if x = 0 then Finite 0
      else let a = \<bar>x\<bar> in
        if pow2 1024 - pow2 970 \<le> a then signed_inf (x < 0)
        else let q = max (ilog2 a - 52) (- 1074);
                 m = round_half_even (a / pow2 q);
                 y = of_int m * pow2 q
             in if m = 0 then signed_zero (x < 0)
                else Finite (if x < 0 then - y else y))"

fun is_zero :: "pyfloat \<Rightarrow> bool" where
  "is_zero (Finite r) = (r = 0)"
| "is_zero NegZero = True"
| "is_zero _ = False"

fun is_inf :: "pyfloat \<Rightarrow> bool" where
  "is_inf PosInf = True"
| "is_inf NegInf = True"
| "is_inf _ = False"

fun is_neg :: "pyfloat \<Rightarrow> bool" where
  "is_neg (Finite r) = (r < 0)"
| "is_neg NegZero = True"
| "is_neg NegInf = True"
| "is_neg _ = False"

fun mag :: "pyfloat \<Rightarrow> rat" where
  "mag (Finite r) = r"
| "mag _ = 0"

text \<open>\<open>a + b\<close> on floats.\<close>

definition fadd :: "pyfloat \<Rightarrow> pyfloat \<Rightarrow> pyfloat" where
  "fadd a b =
     (if a = NaN \<or> b = NaN then NaN
      else if is_inf a \<or> is_inf b then
        (if is_inf a \<and> is_inf b \<and> a \<noteq> b then NaN else if is_inf a then a else b)
      else if is_zero a \<and> is_zero b then
        (if a = NegZero \<and> b = NegZero then NegZero else Finite 0)
      else rnd (mag a + mag b))"

text \<open>\<open>a * b\<close> on floats.\<close>

definition fmul :: "pyfloat \<Rightarrow> pyfloat \<Rightarrow> pyfloat" where
  "fmul a b =
     (if a = NaN \<or> b = NaN then NaN
      else if is_inf a \<or> is_inf b then
        (if is_zero a \<or> is_zero b then NaN else signed_inf (is_neg a \<noteq> is_neg b))
      else if is_zero a \<or> is_zero b then signed_zero (is_neg a \<noteq> is_neg b)
      else rnd (mag a * mag b))"

text \<open>\<open>x >= 0\<close> on a float: false for a NaN, true for both zeros.\<close>

fun ge_zero :: "pyfloat \<Rightarrow> bool" where
  "ge_zero (Finite r) = (0 \<le> r)"
| "ge_zero NegZero = True"
| "ge_zero PosInf = True"
| "ge_zero NegInf = False"
| "ge_zero NaN = False"

text \<open>
  \<open>round(x, ndigits)\<close> for \<open>ndigits \<ge> 0\<close>: CPython rounds the exact value of \<open>x\<close> to
  \<open>ndigits\<close> decimal places, ties to even, and converts the decimal back to the nearest
  double. Infinities, NaN and zeros round to themselves.
\<close>

definition py_round :: "pyfloat \<Rightarrow> nat \<Rightarrow> pyfloat" where
  "py_round x ndigits =
     (case x of
        Finite r \<Rightarrow>
          if r = 0 \<or> 323 < ndigits then x
          else let v = round_half_even (r * 10 ^ ndigits)
               in if v = 0 then signed_zero (r < 0) else rnd (of_int v / 10 ^ ndigits)
      | _ \<Rightarrow> x)"

section \<open>Text\<close>

text \<open>
  A Python \<open>str\<close> is a sequence of code points. Where the program cuts a text or writes
  a sign outside ASCII, the model keeps the text as its code points, so that \<open>s[:50]\<close> is
  \<open>take 50\<close>. The strings it only compares and passes on (names, identities, addresses)
  are kept as \<open>string\<close>.
\<close>

type_synonym unicode = "nat list"

definition ascii :: "string \<Rightarrow> unicode" where
  "ascii s = map of_char s"

section \<open>Exceptions\<close>

text \<open>
  The exceptions the handlers can meet. \<open>InvalidId s\<close> is \<open>bson.errors.InvalidId\<close> for
  the string \<open>s\<close>; \<open>StoreError msg\<close> is a failure of a store operation whose text is
  \<open>msg\<close>. \<open>HTTPException status_code detail\<close> is FastAPI's; the handlers set
  \<open>detail = str(e)\<close>, which the model keeps as the exception \<open>e\<close> itself.
\<close>

datatype pyerr =
    NoneType_not_subscriptable
  | InvalidId string
  | Int_too_large_for_float
  | BSON_int_overflow
  | StoreError unicode

datatype http_error = HTTPException nat pyerr

text \<open>\<open>float(n)\<close> and \<open>x * n\<close> for a Python int \<open>n\<close>: the int is converted to the
  nearest double, and \<open>OverflowError\<close> is raised when that is out of range.\<close>

definition float_of_int :: "int \<Rightarrow> pyerr + pyfloat" where
  "float_of_int n =
     (case rnd (of_int n) of
        PosInf \<Rightarrow> Inl Int_too_large_for_float
      | NegInf \<Rightarrow> Inl Int_too_large_for_float
      | f \<Rightarrow> Inr f)"

definition float_mul_int :: "pyfloat \<Rightarrow> int \<Rightarrow> pyerr + pyfloat" where
  "float_mul_int x n = (case float_of_int n of Inl e \<Rightarrow> Inl e | Inr f \<Rightarrow> Inr (fmul x f))"

section \<open>Object identities\<close>

text \<open>
  A \<open>bson.ObjectId\<close> holds bytes. One that the store assigned holds 12 of them and is
  kept as a 96-bit word: \<open>str\<close> of it is its 24 lower-case hexadecimal digits, \<open>binary\<close>
  its 12 bytes.

  \<open>ObjectId(s)\<close> for a \<open>str\<close> takes a string of exactly 24 characters and reads it with
  \<open>bytes.fromhex\<close>, which reads two hexadecimal digits of either case for a byte and
  skips ASCII whitespace before a byte. The result holds 12 bytes when \<open>s\<close> is 24
  hexadecimal digits and fewer when \<open>s\<close> has whitespace in it; for every other string
  \<open>InvalidId\<close> is raised.
\<close>

type_synonym objectid = "96 word"

definition hexdigit :: "nat \<Rightarrow> char" where
  "hexdigit d = ''0123456789abcdef'' ! (d mod 16)"

definition hexval :: "char \<Rightarrow> nat option" where
  "hexval c = map_of (zip ''0123456789abcdefABCDEF'' ([0..<16] @ [10..<16])) c"

primrec hex_of_nat :: "nat \<Rightarrow> nat \<Rightarrow> string" where
  "hex_of_nat 0 n = []"
| "hex_of_nat (Suc k) n = hex_of_nat k (n div 16) @ [hexdigit n]"

definition str_oid :: "objectid \<Rightarrow> string" where
  "str_oid oid = hex_of_nat 24 (unat oid)"

primrec bytes_of_nat :: "nat \<Rightarrow> nat \<Rightarrow> 8 word list" where
  "bytes_of_nat 0 n = []"
| "bytes_of_nat (Suc k) n = bytes_of_nat k (n div 256) @ [of_nat (n mod 256)]"

definition binary :: "objectid \<Rightarrow> 8 word list" where
  "binary oid = bytes_of_nat 12 (unat oid)"

text \<open>ASCII whitespace: space, tab, line feed, vertical tab, form feed, carriage return.\<close>

definition isspace :: "char \<Rightarrow> bool" where
  "isspace c = (c \<in> set [CHR '' '', CHR 0x09, CHR 0x0A, CHR 0x0B, CHR 0x0C, CHR 0x0D])"

text \<open>\<open>bytes.fromhex(s)\<close>, \<open>None\<close> where it raises \<open>ValueError\<close>.\<close>

fun fromhex :: "string \<Rightarrow> 8 word list option" where
  "fromhex [] = Some []"
| "fromhex [c] = (if isspace c then Some [] else None)"
| "fromhex (c # d # ds) =
     (if isspace c then fromhex (d # ds)
      else case (hexval c, hexval d) of
             (Some hi, Some lo) \<Rightarrow> map_option ((#) (of_nat (16 * hi + lo))) (fromhex ds)
           | _ \<Rightarrow> None)"

text \<open>\<open>ObjectId.is_valid(s)\<close>: the identity format of the store.\<close>

definition is_valid :: "string \<Rightarrow> bool" where
  "is_valid s = (length s = 24 \<and> fromhex s \<noteq> None)"

definition ObjectId :: "string \<Rightarrow> pyerr + 8 word list" where
  "ObjectId s =
     (if length s = 24 then
        (case fromhex s of None \<Rightarrow> Inl (InvalidId s) | Some bs \<Rightarrow> Inr bs)
      else Inl (InvalidId s))"

section \<open>Documents\<close>

text \<open>
  A document as the driver hands it to Python: a dict, kept as an association list in
  insertion order.
\<close>

datatype bson =
    BStr string
  | BInt int
  | BFloat pyfloat
  | BBool bool
  | BNull
  | BOid objectid
  | BArr "bson list"
  | BDoc "(string \<times> bson) list"

type_synonym document = "(string \<times> bson) list"

text \<open>The collections, as \<open>schemas.py\<close> declares them.\<close>

record Restaurant =
  r_name :: string
  r_cuisine :: string
  r_image_url :: "string option"
  r_rating :: "pyfloat option"
  r_delivery_time_min :: "int option"

record Menuitem =
  m_restaurant_id :: string
  m_name :: string
  m_description :: "string option"
  m_price :: pyfloat
  m_image_url :: "string option"
  m_is_veg :: "bool option"
  m_spicy_level :: "int option"

text \<open>A line of an order as \<open>place_order\<close> stores it: identity, quantity, price.\<close>

record OrderItem =
  oi_menuitem_id :: string
  oi_quantity :: int
  oi_price :: pyfloat

record Order =
  o_restaurant_id :: string
  o_items :: "OrderItem list"
  o_customer_name :: string
  o_address :: string
  o_phone :: string
  o_notes :: "string option"
  o_status :: string
  o_total :: "pyfloat option"

definition opt_bson :: "('a \<Rightarrow> bson) \<Rightarrow> 'a option \<Rightarrow> bson" where
  "opt_bson f v = (case v of None \<Rightarrow> BNull | Some x \<Rightarrow> f x)"

definition restaurant_doc :: "objectid \<times> Restaurant \<Rightarrow> document" where
  "restaurant_doc d =
     [(''_id'', BOid (fst d)),
      (''name'', BStr (r_name (snd d))),
      (''cuisine'', BStr (r_cuisine (snd d))),
      (''image_url'', opt_bson BStr (r_image_url (snd d))),
      (''rating'', opt_bson BFloat (r_rating (snd d))),
      (''delivery_time_min'', opt_bson BInt (r_delivery_time_min (snd d)))]"

definition menuitem_doc :: "objectid \<times> Menuitem \<Rightarrow> document" where
  "menuitem_doc d =
     [(''_id'', BOid (fst d)),
      (''restaurant_id'', BStr (m_restaurant_id (snd d))),
      (''name'', BStr (m_name (snd d))),
      (''description'', opt_bson BStr (m_description (snd d))),
      (''price'', BFloat (m_price (snd d))),
      (''is_veg'', opt_bson BBool (m_is_veg (snd d))),
      (''spicy_level'', opt_bson BInt (m_spicy_level (snd d))),
      (''image_url'', opt_bson BStr (m_image_url (snd d)))]"

definition orderitem_doc :: "OrderItem \<Rightarrow> bson" where
  "orderitem_doc i =
     BDoc [(''menuitem_id'', BStr (oi_menuitem_id i)),
           (''quantity'', BInt (oi_quantity i)),
           (''price'', BFloat (oi_price i))]"

definition order_doc :: "objectid \<times> Order \<Rightarrow> document" where
  "order_doc d =
     [(''_id'', BOid (fst d)),
      (''restaurant_id'', BStr (o_restaurant_id (snd d))),
      (''items'', BArr (map orderitem_doc (o_items (snd d)))),
      (''customer_name'', BStr (o_customer_name (snd d))),
      (''address'', BStr (o_address (snd d))),
      (''phone'', BStr (o_phone (snd d))),
      (''notes'', opt_bson BStr (o_notes (snd d))),
      (''status'', BStr (o_status (snd d))),
      (''total'', opt_bson BFloat (o_total (snd d)))]"

section \<open>The store\<close>

text \<open>
  Modelled from the spec: the module \<open>database\<close>, whose handle \<open>db\<close> the handlers
  import, is not among the sources. The spec describes the store as a document service
  with insert-one, insert-many, find-with-filter, find-with-limit-and-sort and count, which
  assigns every persisted entity its identity, identities increasing with creation. The
  model is three collections of identified documents, the next identity to assign, the
  database's name, and the outcome of each coming round trip to the server: \<open>None\<close> for
  one that is answered, \<open>Some msg\<close> for one that fails with the text \<open>msg\<close>; past the
  end of the list every round trip is answered. The handle \<open>db\<close> is \<open>None\<close> when the
  store is not configured.
\<close>

record store =
  coll_restaurant :: "(objectid \<times> Restaurant) list"
  coll_menuitem :: "(objectid \<times> Menuitem) list"
  coll_order :: "(objectid \<times> Order) list"
  next_oid :: objectid
  db_name :: unicode
  faults :: "unicode option list"

type_synonym 'a store_op = "store \<Rightarrow> (pyerr + 'a) \<times> store"

definition sreturn :: "'a \<Rightarrow> 'a store_op" where
  "sreturn a s = (Inr a, s)"

definition sraise :: "pyerr \<Rightarrow> 'a store_op" where
  "sraise e s = (Inl e, s)"

definition sbind :: "'a store_op \<Rightarrow> ('a \<Rightarrow> 'b store_op) \<Rightarrow> 'b store_op" where
  "sbind m f s = (case m s of (Inl e, s') \<Rightarrow> (Inl e, s') | (Inr a, s') \<Rightarrow> f a s')"

definition round_trip :: "unit store_op" where
  "round_trip s =
     (case faults s of
        [] \<Rightarrow> (Inr (), s)
      | None # fs \<Rightarrow> (Inr (), s\<lparr>faults := fs\<rparr>)
      | Some msg # fs \<Rightarrow> (Inl (StoreError msg), s\<lparr>faults := fs\<rparr>))"

text \<open>The next \<open>k\<close> round trips to the server are answered.\<close>

definition answered :: "nat \<Rightarrow> store \<Rightarrow> bool" where
  "answered k s = list_all (\<lambda>f. f = None) (take k (faults s))"

text \<open>An int is stored in at most 8 bytes; the driver raises \<open>OverflowError\<close> otherwise.\<close>

definition int64 :: "int \<Rightarrow> bool" where
  "int64 n = (- (2 ^ 63) \<le> n \<and> n < 2 ^ 63)"

text \<open>\<open>cursor.limit(n)\<close>: a limit of 0 is no limit, a negative limit counts as its
  absolute value.\<close>

definition cursor_limit :: "int \<Rightarrow> 'a list \<Rightarrow> 'a list" where
  "cursor_limit n xs = (if n = 0 then xs else take (nat \<bar>n\<bar>) xs)"

definition count_documents_restaurant :: "nat store_op" where
  "count_documents_restaurant =
     sbind round_trip (\<lambda>_ s. (Inr (length (coll_restaurant s)), s))"

definition insert_one_restaurant :: "Restaurant \<Rightarrow> objectid store_op" where
  "insert_one_restaurant r =
     sbind round_trip (\<lambda>_ s.
       (Inr (next_oid s),
        s\<lparr>coll_restaurant := coll_restaurant s @ [(next_oid s, r)], next_oid := next_oid s + 1\<rparr>))"

definition insert_many_menuitem :: "Menuitem list \<Rightarrow> objectid list store_op" where
  "insert_many_menuitem ms =
     sbind round_trip (\<lambda>_ s.
       let ids = map (\<lambda>i. next_oid s + of_nat i) [0..<length ms]
       in (Inr ids,
           s\<lparr>coll_menuitem := coll_menuitem s @ zip ids ms,
             next_oid := next_oid s + of_nat (length ms)\<rparr>))"

definition insert_one_order :: "Order \<Rightarrow> objectid store_op" where
  "insert_one_order ord =
     (if list_all (\<lambda>i. int64 (oi_quantity i)) (o_items ord) then
        sbind round_trip (\<lambda>_ s.
          (Inr (next_oid s),
           s\<lparr>coll_order := coll_order s @ [(next_oid s, ord)], next_oid := next_oid s + 1\<rparr>))
      else sraise BSON_int_overflow)"

definition find_restaurant :: "int \<Rightarrow> (objectid \<times> Restaurant) list store_op" where
  "find_restaurant limit =
     sbind round_trip (\<lambda>_ s. (Inr (cursor_limit limit (coll_restaurant s)), s))"

definition find_menuitem_by_restaurant :: "string \<Rightarrow> int \<Rightarrow> (objectid \<times> Menuitem) list store_op" where
  "find_menuitem_by_restaurant rid limit =
     sbind round_trip (\<lambda>_ s.
       (Inr (cursor_limit limit (filter (\<lambda>d. m_restaurant_id (snd d) = rid) (coll_menuitem s))), s))"

text \<open>\<open>find({"_id": {"$in": oids}})\<close>: a stored identity matches an \<open>ObjectId\<close> that
  holds its 12 bytes.\<close>

definition find_menuitem_id_in :: "8 word list list \<Rightarrow> (objectid \<times> Menuitem) list store_op" where
  "find_menuitem_id_in oids =
     sbind round_trip (\<lambda>_ s.
       (Inr (filter (\<lambda>d. binary (fst d) \<in> set oids) (coll_menuitem s)), s))"

definition find_order_sorted_desc :: "int \<Rightarrow> (objectid \<times> Order) list store_op" where
  "find_order_sorted_desc limit =
     (if int64 \<bar>limit\<bar> then
        sbind round_trip (\<lambda>_ s. (Inr (cursor_limit limit (rev (sort_key fst (coll_order s)))), s))
      else sraise BSON_int_overflow)"

definition list_collection_names :: "store \<Rightarrow> (unicode + string list) \<times> store" where
  "list_collection_names s =
     (case round_trip s of
        (Inl e, s') \<Rightarrow> (Inl (case e of StoreError msg \<Rightarrow> msg | _ \<Rightarrow> []), s')
      | (Inr _, s') \<Rightarrow>
          (Inr ((if coll_restaurant s = [] then [] else [''restaurant'']) @
                (if coll_menuitem s = [] then [] else [''menuitem'']) @
                (if coll_order s = [] then [] else [''order''])), s'))"

section \<open>The handlers of \<open>main.py\<close>\<close>

text \<open>
  Every handler but the diagnostic one is \<open>try: body except Exception as e: raise
  HTTPException(status_code=500, detail=str(e))\<close>, and the first thing its body does
  with the store is to subscript \<open>db\<close>, which raises \<open>TypeError\<close> when \<open>db\<close> is
  \<open>None\<close>. A handler takes the handle and returns its response, or the error
  response, and the handle with the store as the request left it.
\<close>

definition handler :: "'a store_op \<Rightarrow> store option \<Rightarrow> (http_error + 'a) \<times> store option" where
  "handler body db =
     (case db of
        None \<Rightarrow> (Inl (HTTPException 500 NoneType_not_subscriptable), None)
      | Some s \<Rightarrow>
          (case body s of
             (Inl e, s') \<Rightarrow> (Inl (HTTPException 500 e), Some s')
           | (Inr v, s') \<Rightarrow> (Inr v, Some s')))"

subsection \<open>\<open>serialize_doc\<close>\<close>

definition serialize_doc :: "document \<Rightarrow> document" where
  "serialize_doc doc =
     (if doc = [] then doc
      else case map_of doc ''_id'' of
             Some (BOid oid) \<Rightarrow> AList.delete ''_id'' (AList.update ''id'' (BStr (str_oid oid)) doc)
           | _ \<Rightarrow> doc)"

subsection \<open>\<open>POST /seed\<close>\<close>

definition spice_route :: Restaurant where
  "spice_route =
     \<lparr>r_name = ''Spice Route'', r_cuisine = ''Indian'',
      r_image_url = Some ''https://images.unsplash.com/photo-1544025162-d76694265947'',
      r_rating = Some (rnd (46 / 10)), r_delivery_time_min = Some 30\<rparr>"

definition pasta_palace :: Restaurant where
  "pasta_palace =
     \<lparr>r_name = ''Pasta Palace'', r_cuisine = ''Italian'',
      r_image_url = Some ''https://images.unsplash.com/photo-1521389508051-d7ffb5dc8bbf'',
      r_rating = Some (rnd (44 / 10)), r_delivery_time_min = Some 25\<rparr>"

definition seed_menu :: "objectid \<Rightarrow> objectid \<Rightarrow> Menuitem list" where
  "seed_menu r1_id r2_id =
     [\<lparr>m_restaurant_id = str_oid r1_id, m_name = ''Butter Chicken'',
       m_description = Some ''Creamy tomato gravy'', m_price = rnd (1399 / 100),
       m_image_url = Some ''https://images.unsplash.com/photo-1604909052743-87e9f2fba5a2'',
       m_is_veg = Some False, m_spicy_level = Some 1\<rparr>,
      \<lparr>m_restaurant_id = str_oid r1_id, m_name = ''Paneer Tikka'',
       m_description = Some ''Grilled cottage cheese'', m_price = rnd (105 / 10),
       m_image_url = Some ''https://images.unsplash.com/photo-1601050690597-8df8f1864d84'',
       m_is_veg = Some True, m_spicy_level = Some 1\<rparr>,
      \<lparr>m_restaurant_id = str_oid r2_id, m_name = ''Margherita Pizza'',
       m_description = Some ''Classic with basil'', m_price = rnd 11,
       m_image_url = Some ''https://images.unsplash.com/photo-1548365328-9f547fb09530'',
       m_is_veg = Some True, m_spicy_level = Some 0\<rparr>,
      \<lparr>m_restaurant_id = str_oid r2_id, m_name = ''Pesto Pasta'',
       m_description = Some ''Fresh basil pesto'', m_price = rnd (1275 / 100),
       m_image_url = Some ''https://images.unsplash.com/photo-1521389508051-d7ffb5dc8bbf'',
       m_is_veg = Some True, m_spicy_level = Some 0\<rparr>]"

definition status_ok :: "(string \<times> string) list" where
  "status_ok = [(''status'', ''ok'')]"

definition seed_body :: "(string \<times> string) list store_op" where
  "seed_body =
     sbind count_documents_restaurant (\<lambda>n.
       if n = 0 then
         sbind (insert_one_restaurant spice_route) (\<lambda>r1_id.
         sbind (insert_one_restaurant pasta_palace) (\<lambda>r2_id.
         sbind (insert_many_menuitem (seed_menu r1_id r2_id)) (\<lambda>_.
         sreturn status_ok)))
       else sreturn status_ok)"

definition seed :: "store option \<Rightarrow> (http_error + (string \<times> string) list) \<times> store option" where
  "seed = handler seed_body"

subsection \<open>\<open>GET /restaurants\<close> and \<open>GET /restaurants/{restaurant_id}/menu\<close>\<close>

definition list_restaurants :: "store option \<Rightarrow> (http_error + document list) \<times> store option" where
  "list_restaurants =
     handler (sbind (find_restaurant 50) (\<lambda>docs.
       sreturn (map (\<lambda>d. serialize_doc (restaurant_doc d)) docs)))"

definition get_menu :: "store option \<Rightarrow> string \<Rightarrow> (http_error + document list) \<times> store option" where
  "get_menu db restaurant_id =
     handler (sbind (find_menuitem_by_restaurant restaurant_id 200) (\<lambda>items.
       sreturn (map (\<lambda>i. serialize_doc (menuitem_doc i)) items))) db"

subsection \<open>\<open>POST /orders\<close>\<close>

record CartItem =
  menuitem_id :: string
  quantity :: int

record PlaceOrderRequest =
  restaurant_id :: string
  items :: "CartItem list"
  customer_name :: string
  address :: string
  phone :: string
  order_notes :: "string option"

text \<open>The dict \<open>place_order\<close> returns: \<open>{"id": ..., "total": ..., "status": ...}\<close>.\<close>

record PlaceOrderResponse =
  resp_id :: string
  resp_total :: pyfloat
  resp_status :: string

text \<open>\<open>[ObjectId(mid) for mid in menu_ids]\<close>: the first string that is not an
  identity raises.\<close>

fun object_ids :: "string list \<Rightarrow> pyerr + 8 word list list" where
  "object_ids [] = Inr []"
| "object_ids (mid # mids) =
     (case ObjectId mid of
        Inl e \<Rightarrow> Inl e
      | Inr oid \<Rightarrow> (case object_ids mids of Inl e \<Rightarrow> Inl e | Inr oids \<Rightarrow> Inr (oid # oids)))"

text \<open>
  \<open>{str(d["_id"]): float(d.get("price", 0)) for d in menu_docs}\<close>: a later document
  with the same key replaces an earlier one. \<open>price\<close> is a required float of
  \<open>Menuitem\<close>, so \<open>get\<close> finds it and \<open>float\<close> leaves it as it is.
\<close>

definition price_map_of :: "(objectid \<times> Menuitem) list \<Rightarrow> (string \<rightharpoonup> pyfloat)" where
  "price_map_of menu_docs =
     fold (\<lambda>d pm. pm(str_oid (fst d) \<mapsto> m_price (snd d))) menu_docs Map.empty"

text \<open>\<open>d.get(k, default)\<close>.\<close>

definition dict_get :: "('k \<rightharpoonup> 'v) \<Rightarrow> 'k \<Rightarrow> 'v \<Rightarrow> 'v" where
  "dict_get d k dflt = (case d k of None \<Rightarrow> dflt | Some v \<Rightarrow> v)"

text \<open>The loop over \<open>payload.items\<close>, with \<open>items\<close> and \<open>total\<close> as it has them so far (\<open>its\<close>, \<open>tot\<close>).\<close>

fun order_loop ::
  "(string \<rightharpoonup> pyfloat) \<Rightarrow> CartItem list \<Rightarrow> OrderItem list \<Rightarrow> pyfloat \<Rightarrow> pyerr + OrderItem list \<times> pyfloat"
where
  "order_loop price_map [] its tot = Inr (its, tot)"
| "order_loop price_map (i # rest) its tot =
     (let price = dict_get price_map (menuitem_id i) (Finite 0)
      in case float_mul_int price (quantity i) of
           Inl e \<Rightarrow> Inl e
         | Inr x \<Rightarrow>
             order_loop price_map rest
               (its @ [\<lparr>oi_menuitem_id = menuitem_id i, oi_quantity = quantity i, oi_price = price\<rparr>])
               (fadd tot x))"

text \<open>The dict \<open>order_doc\<close> that \<open>place_order\<close> builds after the loop.\<close>

definition new_order :: "PlaceOrderRequest \<Rightarrow> OrderItem list \<Rightarrow> pyfloat \<Rightarrow> Order" where
  "new_order payload its tot =
     \<lparr>o_restaurant_id = restaurant_id payload,
      o_items = its,
      o_customer_name = customer_name payload,
      o_address = address payload,
      o_phone = phone payload,
      o_notes = order_notes payload,
      o_status = ''placed'',
      o_total = Some (py_round tot 2)\<rparr>"

definition place_order_body :: "PlaceOrderRequest \<Rightarrow> PlaceOrderResponse store_op" where
  "place_order_body payload =
     (let menu_ids = map menuitem_id (items payload)
      in case object_ids menu_ids of
           Inl e \<Rightarrow> sraise e
         | Inr oids \<Rightarrow>
             sbind (find_menuitem_id_in oids) (\<lambda>menu_docs.
               case order_loop (price_map_of menu_docs) (items payload) [] (Finite 0) of
                 Inl e \<Rightarrow> sraise e
               | Inr (its, tot) \<Rightarrow>
                   sbind (insert_one_order (new_order payload its tot)) (\<lambda>order_id.
                   sreturn \<lparr>resp_id = str_oid order_id, resp_total = py_round tot 2,
                            resp_status = ''placed''\<rparr>)))"

text \<open>
  The price \<open>price_map.get(mid, 0.0)\<close> gives a line that names \<open>mid\<close>, read off
  the store: the price of the menu item whose identity has the string form \<open>mid\<close> (of the
  last one, were there several), and 0.0 when there is none. The keys of \<open>price_map\<close> are
  the lower-case \<open>str(d["_id"])\<close> and are compared with the string of the request as it
  is, so a string that \<open>ObjectId\<close> reads but that is not the string form of a stored
  identity (upper-case digits, whitespace) is given 0.0.
\<close>

definition snapshot_price :: "store \<Rightarrow> string \<Rightarrow> pyfloat" where
  "snapshot_price s mid =
     (case filter (\<lambda>d. str_oid (fst d) = mid) (coll_menuitem s) of
        [] \<Rightarrow> Finite 0
      | ds \<Rightarrow> m_price (snd (last ds)))"

definition place_order ::
  "store option \<Rightarrow> PlaceOrderRequest \<Rightarrow> (http_error + PlaceOrderResponse) \<times> store option" where
  "place_order db payload = handler (place_order_body payload) db"

subsection \<open>\<open>GET /orders\<close>\<close>

definition list_orders :: "store option \<Rightarrow> int \<Rightarrow> (http_error + document list) \<times> store option" where
  "list_orders db limit =
     handler (sbind (find_order_sorted_desc limit) (\<lambda>docs.
       sreturn (map (\<lambda>d. serialize_doc (order_doc d)) docs))) db"

text \<open>The query parameter \<open>limit: int = 20\<close>, absent or given.\<close>

definition list_orders_query ::
  "store option \<Rightarrow> int option \<Rightarrow> (http_error + document list) \<times> store option" where
  "list_orders_query db q = list_orders db (case q of None \<Rightarrow> 20 | Some n \<Rightarrow> n)"

subsection \<open>\<open>GET /test\<close>\<close>

text \<open>The three signs of the messages: a check mark, a cross and a warning sign (with its
  variation selector).\<close>

definition check_mark :: unicode where
  "check_mark = [0x2705]"

definition cross_mark :: unicode where
  "cross_mark = [0x274C]"

definition warning_sign :: unicode where
  "warning_sign = [0x26A0, 0xFE0F]"

record TestResponse =
  backend :: unicode
  database :: unicode
  database_url :: "unicode option"
  database_name :: "unicode option"
  connection_status :: unicode
  collections :: "string list"

text \<open>\<open>"... Set" if os.getenv(name) else "... Not Set"\<close>: an unset variable and an
  empty one are both false.\<close>

definition set_or_not :: "string option \<Rightarrow> unicode" where
  "set_or_not v =
     (if v \<noteq> None \<and> v \<noteq> Some [] then check_mark @ ascii '' Set''
      else cross_mark @ ascii '' Not Set'')"

text \<open>
  The handler has no \<open>raise\<close>. In its outer \<open>try\<close> only \<open>db.list_collection_names()\<close>
  can fail, and that call stands in an inner \<open>try\<close> of its own, whose \<open>except\<close> writes
  the first 50 characters of the failure's text into the response.
\<close>

definition test_database ::
  "store option \<Rightarrow> (string \<Rightarrow> string option) \<Rightarrow> (http_error + TestResponse) \<times> store option" where
  "test_database db getenv =
     (let response =
            \<lparr>backend = check_mark @ ascii '' Running'',
             database = cross_mark @ ascii '' Not Available'',
             database_url = None,
             database_name = None,
             connection_status = ascii ''Not Connected'',
             collections = []\<rparr>;
          (response, db') =
            (case db of
               Some s \<Rightarrow>
                 (let response = response
                        \<lparr>database := check_mark @ ascii '' Available'',
                         database_url := Some (check_mark @ ascii '' Configured''),
                         database_name := Some (db_name s),
                         connection_status := ascii ''Connected''\<rparr>
                  in case list_collection_names s of
                       (Inr names, s') \<Rightarrow>
                         (response\<lparr>collections := take 10 names,
                                   database := check_mark @ ascii '' Connected & Working''\<rparr>,
                          Some s')
                     | (Inl e, s') \<Rightarrow>
                         (response\<lparr>database :=
                            warning_sign @ ascii ''  Connected but Error: '' @ take 50 e\<rparr>,
                          Some s'))
             | None \<Rightarrow>
                 (response\<lparr>database := warning_sign @ ascii ''  Available but not initialized''\<rparr>,
                  None));
          response = response\<lparr>database_url := Some (set_or_not (getenv ''DATABASE_URL''))\<rparr>;
          response = response\<lparr>database_name := Some (set_or_not (getenv ''DATABASE_NAME''))\<rparr>
      in (Inr response, db'))"

section \<open>Example stores and requests\<close>

definition item_a :: Menuitem where
  "item_a =
     \<lparr>m_restaurant_id = ''000000000000000000000001'', m_name = ''A'', m_description = None,
      m_price = Finite 10, m_image_url = None, m_is_veg = None, m_spicy_level = None\<rparr>"

definition item_b :: Menuitem where
  "item_b =
     \<lparr>m_restaurant_id = ''000000000000000000000001'', m_name = ''B'', m_description = None,
      m_price = Finite 5, m_image_url = None, m_is_veg = None, m_spicy_level = None\<rparr>"

definition empty_store :: store where
  "empty_store =
     \<lparr>coll_restaurant = [], coll_menuitem = [], coll_order = [], next_oid = 1,
      db_name = ascii ''food'', faults = []\<rparr>"

text \<open>One restaurant with the menu items \<open>A\<close> (10.0) and \<open>B\<close> (5.0), no order.\<close>

definition example_store :: store where
  "example_store =
     \<lparr>coll_restaurant = [(1, spice_route)], coll_menuitem = [(2, item_a), (3, item_b)],
      coll_order = [], next_oid = 4, db_name = ascii ''food'', faults = []\<rparr>"

definition order_of :: "OrderItem list \<Rightarrow> pyfloat \<Rightarrow> Order" where
  "order_of its t =
     \<lparr>o_restaurant_id = ''000000000000000000000001'', o_items = its, o_customer_name = ''Ada'',
      o_address = ''1 Main Street'', o_phone = ''555-0100'', o_notes = None,
      o_status = ''placed'', o_total = Some t\<rparr>"

text \<open>The example store after two orders.\<close>

definition orders_store :: store where
  "orders_store =
     example_store
       \<lparr>coll_order :=
          [(4, order_of [\<lparr>oi_menuitem_id = str_oid 2, oi_quantity = 1, oi_price = Finite 10\<rparr>] (Finite 10)),
           (5, order_of [] (Finite 0))],
        next_oid := 6\<rparr>"

definition request :: "CartItem list \<Rightarrow> PlaceOrderRequest" where
  "request its =
     \<lparr>restaurant_id = ''000000000000000000000001'', items = its, customer_name = ''Ada'',
      address = ''1 Main Street'', phone = ''555-0100'', order_notes = None\<rparr>"

section \<open>Properties\<close>

subsection \<open>Identities as strings\<close>

lemma hexval_hexdigit_less: "k < 16 \<Longrightarrow> hexval (hexdigit k) = Some k"
proof -
  assume "k < 16"
  then have "k = 0 \<or> k = 1 \<or> k = 2 \<or> k = 3 \<or> k = 4 \<or> k = 5 \<or> k = 6 \<or> k = 7 \<or> k = 8
      \<or> k = 9 \<or> k = 10 \<or> k = 11 \<or> k = 12 \<or> k = 13 \<or> k = 14 \<or> k = 15"
    by arith
  then show ?thesis
    unfolding hexdigit_def hexval_def
    by (elim disjE) (simp_all add: upt_rec)
qed

lemma hexval_hexdigit: "hexval (hexdigit d) = Some (d mod 16)"
proof -
  have "hexdigit d = hexdigit (d mod 16)" by (simp add: hexdigit_def)
  then show ?thesis using hexval_hexdigit_less [of "d mod 16"] by simp
qed

lemma upt_16: "[0..<16] = [0, 1, 2, 3, 4, 5, 6, 7, 8, 9, 10, 11, 12, 13, 14, 15]"
  by code_simp

lemma hexval_space: "isspace c \<Longrightarrow> hexval c = None"
proof -
  assume "isspace c"
  then have "c = CHR '' '' \<or> c = CHR 0x09 \<or> c = CHR 0x0A \<or> c = CHR 0x0B \<or> c = CHR 0x0C
      \<or> c = CHR 0x0D"
    by (simp add: isspace_def)
  then show ?thesis
    unfolding hexval_def upt_16 by (elim disjE) simp_all
qed

lemma hexval_not_space: "hexval c = Some v \<Longrightarrow> \<not> isspace c"
  using hexval_space [of c] by auto

lemma length_hex_of_nat: "length (hex_of_nat k n) = k"
  by (induction k arbitrary: n) simp_all

text \<open>Two digits more at the end are one byte more.\<close>

lemma fromhex_snoc:
  "fromhex xs = Some bs \<Longrightarrow> hexval c = Some h \<Longrightarrow> hexval d = Some l \<Longrightarrow>
     fromhex (xs @ [c, d]) = Some (bs @ [of_nat (16 * h + l)])"
proof (induction xs arbitrary: bs rule: fromhex.induct)
  case 1
  then show ?case by (simp add: hexval_not_space)
next
  case (2 x)
  then show ?case by (simp add: hexval_not_space split: if_splits)
next
  case (3 x y zs)
  show ?case
  proof (cases "isspace x")
    case True
    with 3 show ?thesis by simp
  next
    case False
    with "3.prems"(1) obtain hi lo bs' where
      v: "hexval x = Some hi" "hexval y = Some lo"
      and r: "fromhex zs = Some bs'" and bs: "bs = of_nat (16 * hi + lo) # bs'"
      by (auto split: option.splits)
    from "3.IH"(2) [OF False _ v r "3.prems"(2,3)]
    have "fromhex (zs @ [c, d]) = Some (bs' @ [of_nat (16 * h + l)])" by simp
    with False v bs show ?thesis by simp
  qed
qed

lemma fromhex_hex_of_nat: "fromhex (hex_of_nat (2 * k) n) = Some (bytes_of_nat k n)"
proof (induction k arbitrary: n)
  case 0
  then show ?case by simp
next
  case (Suc k)
  have b: "16 * (n div 16 mod 16) + n mod 16 = n mod 256"
    using mod_mult2_eq [of n 16 16] by simp
  have "n div 16 div 16 = n div 256" using div_mult2_eq [of n 16 16] by simp
  then have "hex_of_nat (2 * Suc k) n =
      hex_of_nat (2 * k) (n div 256) @ [hexdigit (n div 16), hexdigit n]"
    by simp
  moreover have "fromhex (hex_of_nat (2 * k) (n div 256) @ [hexdigit (n div 16), hexdigit n]) =
      Some (bytes_of_nat k (n div 256) @ [of_nat (16 * (n div 16 mod 16) + n mod 16)])"
    by (rule fromhex_snoc) (simp_all add: Suc hexval_hexdigit)
  ultimately show ?case by (simp add: b)
qed

lemma ObjectId_str_oid: "ObjectId (str_oid oid) = Inr (binary oid)"
proof -
  have "fromhex (hex_of_nat (2 * 12) (unat oid)) = Some (bytes_of_nat 12 (unat oid))"
    by (rule fromhex_hex_of_nat)
  then show ?thesis
    by (simp add: ObjectId_def str_oid_def binary_def length_hex_of_nat)
qed

lemma ObjectId_eq_str_oid: "ObjectId mid = Inr bs \<Longrightarrow> str_oid oid = mid \<Longrightarrow> bs = binary oid"
  using ObjectId_str_oid [of oid] by simp

lemma hex_of_nat_inj: "hex_of_nat k n = hex_of_nat k m \<Longrightarrow> n mod 16 ^ k = m mod 16 ^ k"
proof (induction k arbitrary: n m)
  case 0
  then show ?case by simp
next
  case (Suc k)
  then have e: "hex_of_nat k (n div 16) = hex_of_nat k (m div 16)" and d: "hexdigit n = hexdigit m"
    by (simp_all add: length_hex_of_nat)
  from d have "hexval (hexdigit n) = hexval (hexdigit m)" by simp
  then have 1: "n mod 16 = m mod 16" by (simp add: hexval_hexdigit)
  from Suc.IH [OF e] have 2: "n div 16 mod 16 ^ k = m div 16 mod 16 ^ k" .
  have "n mod 16 ^ Suc k = 16 * (n div 16 mod 16 ^ k) + n mod 16"
    "m mod 16 ^ Suc k = 16 * (m div 16 mod 16 ^ k) + m mod 16"
    by (simp_all add: mod_mult2_eq)
  with 1 2 show ?case by simp
qed

lemma str_oid_inj: "str_oid a = str_oid b \<longleftrightarrow> a = b"
proof
  assume "str_oid a = str_oid b"
  then have "unat a mod 16 ^ 24 = unat b mod 16 ^ 24"
    unfolding str_oid_def by (rule hex_of_nat_inj)
  moreover have "unat a < 2 ^ 96" "unat b < 2 ^ 96"
    using unsigned_less [of a] unsigned_less [of b] by simp_all
  ultimately have "unat a = unat b" by simp
  then show "a = b" by (rule word_unat_eq_iff [THEN iffD2])
qed simp

subsection \<open>Round trips, sequencing and the handler boundary\<close>

lemma round_trip_Inr:
  "round_trip s = (Inr u, s') \<longleftrightarrow> answered 1 s \<and> s' = s\<lparr>faults := tl (faults s)\<rparr>"
  by (cases s) (auto simp: round_trip_def answered_def split: option.splits list.splits)

lemma round_trip_Inl:
  "round_trip s = (Inl e, s') \<longleftrightarrow>
     (\<exists>msg fs. faults s = Some msg # fs \<and> e = StoreError msg \<and> s' = s\<lparr>faults := fs\<rparr>)"
  by (cases s) (auto simp: round_trip_def split: option.splits list.splits)

lemma answered_Suc:
  "answered (Suc k) s \<longleftrightarrow> answered 1 s \<and> answered k (s\<lparr>faults := tl (faults s)\<rparr>)"
  by (cases "faults s") (auto simp: answered_def)

lemma answered_0: "answered 0 s"
  by (simp add: answered_def)


lemma sbind_Inr:
  "sbind m f s = (Inr v, s') \<longleftrightarrow> (\<exists>a t. m s = (Inr a, t) \<and> f a t = (Inr v, s'))"
  by (cases "m s") (auto simp: sbind_def split: sum.splits)

lemma sbind_Inl:
  "sbind m f s = (Inl e, s') \<longleftrightarrow>
     m s = (Inl e, s') \<or> (\<exists>a t. m s = (Inr a, t) \<and> f a t = (Inl e, s'))"
  by (cases "m s") (auto simp: sbind_def split: sum.splits)

lemma handler_Inr:
  "handler body db = (Inr v, db') \<longleftrightarrow> (\<exists>s s'. db = Some s \<and> db' = Some s' \<and> body s = (Inr v, s'))"
  by (cases db) (auto simp: handler_def split: sum.splits prod.splits)

lemma handler_Inl:
  "handler body db = (Inl err, db') \<longleftrightarrow>
     (db = None \<and> db' = None \<and> err = HTTPException 500 NoneType_not_subscriptable) \<or>
     (\<exists>s s' e. db = Some s \<and> db' = Some s' \<and> body s = (Inl e, s') \<and> err = HTTPException 500 e)"
  by (cases db) (auto simp: handler_def split: sum.splits prod.splits)

subsection \<open>\<open>serialize_doc\<close>\<close>

lemma serialize_doc_id:
  assumes "map_of doc ''_id'' = Some (BOid oid)"
  shows "map_of (serialize_doc doc) ''id'' = Some (BStr (str_oid oid))"
    and "map_of (serialize_doc doc) ''_id'' = None"
proof -
  from assms have "doc \<noteq> []" by auto
  with assms show "map_of (serialize_doc doc) ''id'' = Some (BStr (str_oid oid))"
    by (simp add: serialize_doc_def AList.delete_conv' AList.update_conv')
  from assms \<open>doc \<noteq> []\<close> show "map_of (serialize_doc doc) ''_id'' = None"
    by (simp add: serialize_doc_def AList.delete_conv')
qed

lemma serialize_doc_other:
  assumes "map_of doc ''_id'' = Some (BOid oid)" and "k \<noteq> ''id''" and "k \<noteq> ''_id''"
  shows "map_of (serialize_doc doc) k = map_of doc k"
proof -
  from assms have "doc \<noteq> []" by auto
  with assms show ?thesis
    by (simp add: serialize_doc_def AList.delete_conv' AList.update_conv')
qed


subsection \<open>The diagnostic endpoint\<close>

text \<open>
  C9: the diagnostic endpoint never fails the request. For every handle and every
  environment \<open>test_database\<close> returns a diagnostic object and never an error
  response; a store that is not initialised and a store whose round trip fails show as
  values of the field \<open>database\<close>, the failure's text cut to its first 50 characters
  (code points, as \<open>str(e)[:50]\<close> counts them).
\<close>

theorem test_database_never_fails:
  "\<exists>r db'. test_database db getenv = (Inr r, db') \<and>
     (db = None \<longrightarrow> db' = None \<and> database r = warning_sign @ ascii ''  Available but not initialized'') \<and>
     (\<forall>s msg fs. db = Some s \<and> faults s = Some msg # fs \<longrightarrow>
        database r = warning_sign @ ascii ''  Connected but Error: '' @ take 50 msg) \<and>
     (\<forall>s. db = Some s \<and> answered 1 s \<longrightarrow> database r = check_mark @ ascii '' Connected & Working'')"
proof (cases db)
  case None
  then show ?thesis by (simp add: test_database_def)
next
  case (Some s)
  obtain res s' where rt: "round_trip s = (res, s')" by (cases "round_trip s")
  show ?thesis
  proof (cases res)
    case (Inl e)
    with rt obtain msg fs where f: "faults s = Some msg # fs" "e = StoreError msg"
      using round_trip_Inl [of s e s'] by auto
    then have "\<not> answered 1 s" by (simp add: answered_def)
    with Some rt Inl f show ?thesis
      by (simp add: test_database_def list_collection_names_def)
  next
    case (Inr u)
    with rt have a: "answered 1 s" using round_trip_Inr [of s u s'] by simp
    then have "\<And>msg fs. faults s \<noteq> Some msg # fs" by (auto simp: answered_def)
    with Some rt Inr a show ?thesis
      by (simp add: test_database_def list_collection_names_def)
  qed
qed

theorem test_database_never_fails_witness:
  "\<exists>r db'. test_database (Some (example_store\<lparr>faults := [Some (replicate 60 233)]\<rparr>)) (\<lambda>_. None)
        = (Inr r, db') \<and>
     database r = warning_sign @ ascii ''  Connected but Error: '' @ replicate 50 233"
  using test_database_never_fails
    [of "Some (example_store\<lparr>faults := [Some (replicate 60 233)]\<rparr>)" "\<lambda>_. None"]
  by (auto simp: example_store_def)

subsection \<open>The listing endpoints\<close>

lemma query_Inr:
  "sbind round_trip (\<lambda>_ s. (Inr (g s), s)) s = (Inr v, s') \<longleftrightarrow>
     answered 1 s \<and> s' = s\<lparr>faults := tl (faults s)\<rparr> \<and> v = g s'"
  by (auto simp: sbind_Inr round_trip_Inr)

lemma query_Inl:
  "sbind round_trip (\<lambda>_ s. (Inr (g s), s)) s = (Inl e, s') \<longleftrightarrow> round_trip s = (Inl e, s')"
  by (auto simp: sbind_Inl)

lemma list_restaurants_Inr:
  "list_restaurants db = (Inr docs, db') \<longleftrightarrow>
     (\<exists>s. db = Some s \<and> answered 1 s \<and> db' = Some (s\<lparr>faults := tl (faults s)\<rparr>) \<and>
        docs = map (\<lambda>d. serialize_doc (restaurant_doc d)) (cursor_limit 50 (coll_restaurant s)))"
  unfolding list_restaurants_def find_restaurant_def handler_Inr sbind_Inr [of "sbind _ _"] query_Inr
  by (auto simp: sreturn_def)

lemma get_menu_Inr:
  "get_menu db rid = (Inr docs, db') \<longleftrightarrow>
     (\<exists>s. db = Some s \<and> answered 1 s \<and> db' = Some (s\<lparr>faults := tl (faults s)\<rparr>) \<and>
        docs = map (\<lambda>i. serialize_doc (menuitem_doc i))
                 (cursor_limit 200 (filter (\<lambda>d. m_restaurant_id (snd d) = rid) (coll_menuitem s))))"
  unfolding get_menu_def find_menuitem_by_restaurant_def handler_Inr sbind_Inr [of "sbind _ _"] query_Inr
  by (auto simp: sreturn_def)

lemma get_menu_Inl:
  "get_menu db rid = (Inl err, db') \<longleftrightarrow>
     (db = None \<and> db' = None \<and> err = HTTPException 500 NoneType_not_subscriptable) \<or>
     (\<exists>s s' e. db = Some s \<and> db' = Some s' \<and> round_trip s = (Inl e, s') \<and> err = HTTPException 500 e)"
  unfolding get_menu_def find_menuitem_by_restaurant_def handler_Inl sbind_Inl [of "sbind _ _"] query_Inl
  by (auto simp: sreturn_def)

lemma list_orders_Inr:
  "list_orders db limit = (Inr docs, db') \<longleftrightarrow>
     (\<exists>s. db = Some s \<and> int64 \<bar>limit\<bar> \<and> answered 1 s \<and> db' = Some (s\<lparr>faults := tl (faults s)\<rparr>) \<and>
        docs = map (\<lambda>d. serialize_doc (order_doc d))
                 (cursor_limit limit (rev (sort_key fst (coll_order s)))))"
proof (cases "int64 \<bar>limit\<bar>")
  case True
  then show ?thesis
    unfolding list_orders_def find_order_sorted_desc_def handler_Inr sbind_Inr [of "if _ then _ else _"]
    by (auto simp: sreturn_def query_Inr)
next
  case False
  then show ?thesis
    unfolding list_orders_def find_order_sorted_desc_def handler_Inr sbind_Inr [of "if _ then _ else _"]
    by (auto simp: sreturn_def sraise_def)
qed

lemma set_cursor_limit: "set (cursor_limit n xs) \<subseteq> set xs"
  by (auto simp: cursor_limit_def dest: in_set_takeD)

lemma length_cursor_limit: "0 < n \<Longrightarrow> length (cursor_limit n xs) \<le> nat n"
  by (simp add: cursor_limit_def)

lemma restaurant_doc_id: "map_of (restaurant_doc d) ''_id'' = Some (BOid (fst d))"
  by (simp add: restaurant_doc_def)

lemma menuitem_doc_id: "map_of (menuitem_doc d) ''_id'' = Some (BOid (fst d))"
  by (simp add: menuitem_doc_def)

lemma order_doc_id: "map_of (order_doc d) ''_id'' = Some (BOid (fst d))"
  by (simp add: order_doc_def)


lemma example_store_answered: "answered k example_store"
  by (simp add: answered_def example_store_def)

lemma get_menu_example_none:
  "get_menu (Some example_store) ''no such restaurant'' = (Inr [], Some example_store)"
  by (simp add: get_menu_def find_menuitem_by_restaurant_def handler_def sbind_def sreturn_def
      round_trip_def example_store_def cursor_limit_def item_a_def item_b_def)

lemma get_menu_example_two:
  "get_menu (Some example_store) ''000000000000000000000001'' =
     (Inr [serialize_doc (menuitem_doc (2, item_a)), serialize_doc (menuitem_doc (3, item_b))],
      Some example_store)"
  by (simp add: get_menu_def find_menuitem_by_restaurant_def handler_def sbind_def sreturn_def
      round_trip_def example_store_def cursor_limit_def item_a_def item_b_def)

lemma list_restaurants_example:
  "list_restaurants (Some example_store) =
     (Inr [serialize_doc (restaurant_doc (1, spice_route))], Some example_store)"
  by (simp add: list_restaurants_def find_restaurant_def handler_def sbind_def sreturn_def
      round_trip_def example_store_def cursor_limit_def)

lemma serialized_list:
  assumes "\<And>r. map_of (f r) ''_id'' = Some (BOid (fst r))"
  shows "list_all2 (\<lambda>d r. map_of d ''id'' = Some (BStr (str_oid (fst r))) \<and> map_of d ''_id'' = None \<and>
                      (\<forall>k. k \<noteq> ''id'' \<and> k \<noteq> ''_id'' \<longrightarrow> map_of d k = map_of (f r) k))
           (map (\<lambda>r. serialize_doc (f r)) recs) recs"
  by (simp add: list_all2_map1 list_all2_same serialize_doc_id [OF assms]
      serialize_doc_other [OF assms])

text \<open>
  C8: every entity a listing endpoint returns carries its store-assigned identity as
  the string field \<open>id\<close> and has no field \<open>_id\<close>. \<open>serialize_doc\<close> does so for
  every document whose \<open>_id\<close> is an \<open>ObjectId\<close>. What restaurant listing, menu retrieval
  and order listing return is, entity by entity and in this order, the list of records the
  store selected: each entity has its own record's identity in string form as \<open>id\<close>, no
  \<open>_id\<close>, and every other field as its record has it.
\<close>

theorem listed_entities_carry_string_id:
  "(map_of doc ''_id'' = Some (BOid oid) \<longrightarrow>
      map_of (serialize_doc doc) ''id'' = Some (BStr (str_oid oid)) \<and>
      map_of (serialize_doc doc) ''_id'' = None) \<and>
   (list_restaurants db = (Inr docs, db') \<longrightarrow>
      (\<exists>s. db = Some s \<and>
         list_all2 (\<lambda>d r. map_of d ''id'' = Some (BStr (str_oid (fst r))) \<and> map_of d ''_id'' = None \<and>
                      (\<forall>k. k \<noteq> ''id'' \<and> k \<noteq> ''_id'' \<longrightarrow> map_of d k = map_of (restaurant_doc r) k))
           docs (take 50 (coll_restaurant s)))) \<and>
   (get_menu db rid = (Inr docs, db') \<longrightarrow>
      (\<exists>s. db = Some s \<and>
         list_all2 (\<lambda>d r. map_of d ''id'' = Some (BStr (str_oid (fst r))) \<and> map_of d ''_id'' = None \<and>
                      (\<forall>k. k \<noteq> ''id'' \<and> k \<noteq> ''_id'' \<longrightarrow> map_of d k = map_of (menuitem_doc r) k))
           docs (take 200 (filter (\<lambda>d. m_restaurant_id (snd d) = rid) (coll_menuitem s))))) \<and>
   (list_orders db limit = (Inr docs, db') \<longrightarrow>
      (\<exists>s. db = Some s \<and>
         list_all2 (\<lambda>d r. map_of d ''id'' = Some (BStr (str_oid (fst r))) \<and> map_of d ''_id'' = None \<and>
                      (\<forall>k. k \<noteq> ''id'' \<and> k \<noteq> ''_id'' \<longrightarrow> map_of d k = map_of (order_doc r) k))
           docs (cursor_limit limit (rev (sort_key fst (coll_order s))))))"
proof (intro conjI impI)
  assume "map_of doc ''_id'' = Some (BOid oid)"
  then show "map_of (serialize_doc doc) ''id'' = Some (BStr (str_oid oid))"
    and "map_of (serialize_doc doc) ''_id'' = None"
    by (rule serialize_doc_id)+
next
  assume "list_restaurants db = (Inr docs, db')"
  then obtain s where s: "db = Some s"
    and docs: "docs = map (\<lambda>d. serialize_doc (restaurant_doc d)) (cursor_limit 50 (coll_restaurant s))"
    unfolding list_restaurants_Inr by (elim exE conjE)
  have "list_all2 (\<lambda>d r. map_of d ''id'' = Some (BStr (str_oid (fst r))) \<and> map_of d ''_id'' = None \<and>
                      (\<forall>k. k \<noteq> ''id'' \<and> k \<noteq> ''_id'' \<longrightarrow> map_of d k = map_of (restaurant_doc r) k))
           docs (take 50 (coll_restaurant s))"
    unfolding docs using serialized_list [of restaurant_doc, OF restaurant_doc_id]
    by (simp add: cursor_limit_def)
  with s show "\<exists>s. db = Some s \<and>
         list_all2 (\<lambda>d r. map_of d ''id'' = Some (BStr (str_oid (fst r))) \<and> map_of d ''_id'' = None \<and>
                      (\<forall>k. k \<noteq> ''id'' \<and> k \<noteq> ''_id'' \<longrightarrow> map_of d k = map_of (restaurant_doc r) k))
           docs (take 50 (coll_restaurant s))"
    by (intro exI [of _ s] conjI)
next
  assume "get_menu db rid = (Inr docs, db')"
  then obtain s where s: "db = Some s"
    and docs: "docs = map (\<lambda>i. serialize_doc (menuitem_doc i))
                 (cursor_limit 200 (filter (\<lambda>d. m_restaurant_id (snd d) = rid) (coll_menuitem s)))"
    unfolding get_menu_Inr by (elim exE conjE)
  have "list_all2 (\<lambda>d r. map_of d ''id'' = Some (BStr (str_oid (fst r))) \<and> map_of d ''_id'' = None \<and>
                      (\<forall>k. k \<noteq> ''id'' \<and> k \<noteq> ''_id'' \<longrightarrow> map_of d k = map_of (menuitem_doc r) k))
           docs (take 200 (filter (\<lambda>d. m_restaurant_id (snd d) = rid) (coll_menuitem s)))"
    unfolding docs using serialized_list [of menuitem_doc, OF menuitem_doc_id]
    by (simp add: cursor_limit_def)
  with s show "\<exists>s. db = Some s \<and>
         list_all2 (\<lambda>d r. map_of d ''id'' = Some (BStr (str_oid (fst r))) \<and> map_of d ''_id'' = None \<and>
                      (\<forall>k. k \<noteq> ''id'' \<and> k \<noteq> ''_id'' \<longrightarrow> map_of d k = map_of (menuitem_doc r) k))
           docs (take 200 (filter (\<lambda>d. m_restaurant_id (snd d) = rid) (coll_menuitem s)))"
    by (intro exI [of _ s] conjI)
next
  assume "list_orders db limit = (Inr docs, db')"
  then obtain s where s: "db = Some s"
    and docs: "docs = map (\<lambda>d. serialize_doc (order_doc d))
                 (cursor_limit limit (rev (sort_key fst (coll_order s))))"
    unfolding list_orders_Inr by (elim exE conjE)
  have "list_all2 (\<lambda>d r. map_of d ''id'' = Some (BStr (str_oid (fst r))) \<and> map_of d ''_id'' = None \<and>
                      (\<forall>k. k \<noteq> ''id'' \<and> k \<noteq> ''_id'' \<longrightarrow> map_of d k = map_of (order_doc r) k))
           docs (cursor_limit limit (rev (sort_key fst (coll_order s))))"
    unfolding docs by (rule serialized_list [of order_doc, OF order_doc_id])
  with s show "\<exists>s. db = Some s \<and>
         list_all2 (\<lambda>d r. map_of d ''id'' = Some (BStr (str_oid (fst r))) \<and> map_of d ''_id'' = None \<and>
                      (\<forall>k. k \<noteq> ''id'' \<and> k \<noteq> ''_id'' \<longrightarrow> map_of d k = map_of (order_doc r) k))
           docs (cursor_limit limit (rev (sort_key fst (coll_order s))))"
    by (intro exI [of _ s] conjI)
qed

theorem listed_entities_carry_string_id_witness:
  "get_menu (Some example_store) ''000000000000000000000001'' =
     (Inr [serialize_doc (menuitem_doc (2, item_a)), serialize_doc (menuitem_doc (3, item_b))],
      Some example_store) \<and>
   map_of (serialize_doc (menuitem_doc (2, item_a))) ''id'' = Some (BStr (str_oid 2)) \<and>
   map_of (serialize_doc (menuitem_doc (2, item_a))) ''_id'' = None \<and>
   map_of (serialize_doc (menuitem_doc (2, item_a))) ''name'' = Some (BStr ''A'') \<and>
   map_of (serialize_doc (menuitem_doc (3, item_b))) ''id'' = Some (BStr (str_oid 3)) \<and>
   map_of (serialize_doc (menuitem_doc (3, item_b))) ''_id'' = None \<and>
   map_of (serialize_doc (menuitem_doc (3, item_b))) ''name'' = Some (BStr ''B'') \<and>
   str_oid 2 \<noteq> str_oid 3"
proof -
  have sel: "take 200 (filter (\<lambda>d. m_restaurant_id (snd d) = ''000000000000000000000001'')
                (coll_menuitem example_store)) = [(2, item_a), (3, item_b)]"
    by (simp add: example_store_def item_a_def item_b_def)
  have names: "map_of (menuitem_doc (2, item_a)) ''name'' = Some (BStr ''A'')"
    "map_of (menuitem_doc (3, item_b)) ''name'' = Some (BStr ''B'')"
    by (simp_all add: menuitem_doc_def item_a_def item_b_def)
  from listed_entities_carry_string_id
    [where db = "Some example_store" and rid = "''000000000000000000000001''"
       and docs = "[serialize_doc (menuitem_doc (2, item_a)), serialize_doc (menuitem_doc (3, item_b))]"
       and db' = "Some example_store"]
    get_menu_example_two
  have "list_all2 (\<lambda>d r. map_of d ''id'' = Some (BStr (str_oid (fst r))) \<and> map_of d ''_id'' = None \<and>
                      (\<forall>k. k \<noteq> ''id'' \<and> k \<noteq> ''_id'' \<longrightarrow> map_of d k = map_of (menuitem_doc r) k))
           [serialize_doc (menuitem_doc (2, item_a)), serialize_doc (menuitem_doc (3, item_b))]
           [(2, item_a), (3, item_b)]"
    unfolding sel [symmetric] by simp
  with names get_menu_example_two show ?thesis by (simp add: str_oid_inj)
qed

lemma menuitem_doc_restaurant_id:
  "map_of (serialize_doc (menuitem_doc d)) ''restaurant_id'' = Some (BStr (m_restaurant_id (snd d)))"
  using serialize_doc_other [OF menuitem_doc_id, of "''restaurant_id''" d]
  by (simp add: menuitem_doc_def)


text \<open>
  C6: menu retrieval takes any string as the restaurant identity. When the store
  answers, it returns the serialised menu items whose \<open>restaurant_id\<close> equals the string,
  at most 200 of them, and the empty array when no menu item matches; the restaurant
  itself is never looked up. An error response is never caused by the identity: it has
  status 500, and the same request with any other identity gets the same error.
\<close>

theorem get_menu_exact_match:
  "(db = Some s \<and> answered 1 s \<longrightarrow>
      (\<exists>docs db'. get_menu db rid = (Inr docs, db') \<and>
         docs = map (\<lambda>i. serialize_doc (menuitem_doc i))
                  (take 200 (filter (\<lambda>d. m_restaurant_id (snd d) = rid) (coll_menuitem s))) \<and>
         length docs \<le> 200 \<and>
         (\<forall>d \<in> set docs. map_of d ''restaurant_id'' = Some (BStr rid)) \<and>
         ((\<forall>d \<in> set (coll_menuitem s). m_restaurant_id (snd d) \<noteq> rid) \<longrightarrow> docs = []))) \<and>
   (get_menu db rid = (Inl err, db') \<longrightarrow>
      (\<exists>e. err = HTTPException 500 e) \<and> (\<forall>rid'. get_menu db rid' = (Inl err, db')))"
proof (intro conjI impI)
  assume a: "db = Some s \<and> answered 1 s"
  define recs where "recs = take 200 (filter (\<lambda>d. m_restaurant_id (snd d) = rid) (coll_menuitem s))"
  define docs where "docs = map (\<lambda>i. serialize_doc (menuitem_doc i)) recs"
  have run: "get_menu db rid = (Inr docs, Some (s\<lparr>faults := tl (faults s)\<rparr>))"
    using a unfolding get_menu_Inr docs_def recs_def by (simp add: cursor_limit_def)
  have len: "length docs \<le> 200" by (simp add: docs_def recs_def)
  have "\<forall>r \<in> set recs. m_restaurant_id (snd r) = rid"
    unfolding recs_def by (auto dest: in_set_takeD)
  then have eq: "\<forall>d \<in> set docs. map_of d ''restaurant_id'' = Some (BStr rid)"
    unfolding docs_def by (auto simp: menuitem_doc_restaurant_id)
  have none: "(\<forall>d \<in> set (coll_menuitem s). m_restaurant_id (snd d) \<noteq> rid) \<longrightarrow> docs = []"
    unfolding docs_def recs_def by (simp add: filter_empty_conv)
  from run len eq none show "\<exists>docs db'. get_menu db rid = (Inr docs, db') \<and>
         docs = map (\<lambda>i. serialize_doc (menuitem_doc i))
                  (take 200 (filter (\<lambda>d. m_restaurant_id (snd d) = rid) (coll_menuitem s))) \<and>
         length docs \<le> 200 \<and>
         (\<forall>d \<in> set docs. map_of d ''restaurant_id'' = Some (BStr rid)) \<and>
         ((\<forall>d \<in> set (coll_menuitem s). m_restaurant_id (snd d) \<noteq> rid) \<longrightarrow> docs = [])"
    unfolding docs_def recs_def by blast
next
  assume "get_menu db rid = (Inl err, db')"
  then show "\<exists>e. err = HTTPException 500 e" unfolding get_menu_Inl by blast
next
  assume "get_menu db rid = (Inl err, db')"
  then show "\<forall>rid'. get_menu db rid' = (Inl err, db')" unfolding get_menu_Inl by blast
qed

theorem get_menu_exact_match_witness:
  "answered 1 example_store \<and>
   get_menu (Some example_store) ''no such restaurant'' = (Inr [], Some example_store) \<and>
   get_menu (Some example_store) ''000000000000000000000001'' =
     (Inr [serialize_doc (menuitem_doc (2, item_a)), serialize_doc (menuitem_doc (3, item_b))],
      Some example_store)"
proof -
  have a: "answered 1 example_store" by (rule example_store_answered)
  have "\<exists>docs db'. get_menu (Some example_store) ''no such restaurant'' = (Inr docs, db')"
    using get_menu_exact_match [of "Some example_store" example_store "''no such restaurant''"] a
    by blast
  with a get_menu_example_none get_menu_example_two show ?thesis by simp
qed

subsection \<open>Order listing\<close>

lemma sorted_desc_by_id:
  "sorted_wrt (\<lambda>a b. fst b \<le> fst a) (rev (sort_key fst (xs :: (objectid \<times> 'a) list)))"
proof -
  have "sorted (map fst (sort_key fst xs))" by (rule sorted_sort_key)
  then have "sorted_wrt (\<lambda>a b. fst a \<le> fst b) (sort_key fst xs)"
    by (simp add: sorted_map)
  then show ?thesis by (simp add: sorted_wrt_rev)
qed

lemma list_orders_example:
  "list_orders (Some orders_store) 0 =
     (Inr (map (\<lambda>d. serialize_doc (order_doc d)) (rev (coll_order orders_store))),
      Some orders_store)"
  by (simp add: list_orders_def find_order_sorted_desc_def handler_def sbind_def sreturn_def
      round_trip_def orders_store_def example_store_def cursor_limit_def int64_def)


text \<open>
  C7, as stated, fails for \<open>limit = 0\<close>: the store reads a limit of 0 as no limit, and
  with two orders stored \<open>GET /orders?limit=0\<close> returns both, which is more than 0.
\<close>

theorem list_orders_limit_zero_counterexample:
  "list_orders (Some orders_store) 0 =
     (Inr (map (\<lambda>d. serialize_doc (order_doc d)) (rev (coll_order orders_store))),
      Some orders_store) \<and>
   \<not> int (length (map (\<lambda>d. serialize_doc (order_doc d)) (rev (coll_order orders_store)))) \<le> 0"
  using list_orders_example by (simp add: orders_store_def)


text \<open>
  C7, amended: for every positive \<open>limit\<close> (20 when the parameter is absent) order
  listing returns at most \<open>limit\<close> order records, the first \<open>limit\<close> of all order
  records sorted by identity, largest first, with no filtering: all of them when there are
  at most \<open>limit\<close>. A limit of 0 returns every order record, in the same order. With
  an answering store every limit that fits 8 bytes is served.
\<close>

theorem list_orders_positive_limit:
  "(0 < limit \<and> list_orders db limit = (Inr docs, db') \<longrightarrow>
      (\<exists>s recs. db = Some s \<and>
         recs = take (nat limit) (rev (sort_key fst (coll_order s))) \<and>
         docs = map (\<lambda>d. serialize_doc (order_doc d)) recs \<and>
         int (length docs) \<le> limit \<and>
         sorted_wrt (\<lambda>a b. fst b \<le> fst a) recs \<and>
         set recs \<subseteq> set (coll_order s) \<and>
         (int (length (coll_order s)) \<le> limit \<longrightarrow> mset recs = mset (coll_order s)))) \<and>
   (list_orders db 0 = (Inr docs, db') \<longrightarrow>
      (\<exists>s. db = Some s \<and>
         docs = map (\<lambda>d. serialize_doc (order_doc d)) (rev (sort_key fst (coll_order s))))) \<and>
   list_orders_query db None = list_orders db 20 \<and>
   list_orders_query db (Some limit) = list_orders db limit \<and>
   (db = Some s \<and> answered 1 s \<and> int64 \<bar>limit\<bar> \<longrightarrow>
      (\<exists>docs db'. list_orders db limit = (Inr docs, db')))"
proof (intro conjI impI)
  assume a: "0 < limit \<and> list_orders db limit = (Inr docs, db')"
  then obtain s where s: "db = Some s"
    and docs: "docs = map (\<lambda>d. serialize_doc (order_doc d))
                 (cursor_limit limit (rev (sort_key fst (coll_order s))))"
    unfolding list_orders_Inr by blast
  define recs where "recs = take (nat limit) (rev (sort_key fst (coll_order s)))"
  from a have cl: "cursor_limit limit (rev (sort_key fst (coll_order s))) = recs"
    by (simp add: cursor_limit_def recs_def)
  have 1: "docs = map (\<lambda>d. serialize_doc (order_doc d)) recs" using docs cl by simp
  have "length recs \<le> nat limit" by (simp add: recs_def)
  moreover from a have "0 \<le> limit" by simp
  ultimately have "int (length recs) \<le> limit" by (simp add: le_nat_iff)
  then have 2: "int (length docs) \<le> limit" by (simp add: 1)
  have 3: "sorted_wrt (\<lambda>a b. fst b \<le> fst a) recs"
    unfolding recs_def by (rule sorted_wrt_take) (rule sorted_desc_by_id)
  have 4: "set recs \<subseteq> set (coll_order s)"
    unfolding recs_def by (auto dest: in_set_takeD)
  have 5: "int (length (coll_order s)) \<le> limit \<longrightarrow> mset recs = mset (coll_order s)"
    unfolding recs_def by simp
  from s 1 2 3 4 5 show "\<exists>s recs. db = Some s \<and>
         recs = take (nat limit) (rev (sort_key fst (coll_order s))) \<and>
         docs = map (\<lambda>d. serialize_doc (order_doc d)) recs \<and>
         int (length docs) \<le> limit \<and>
         sorted_wrt (\<lambda>a b. fst b \<le> fst a) recs \<and>
         set recs \<subseteq> set (coll_order s) \<and>
         (int (length (coll_order s)) \<le> limit \<longrightarrow> mset recs = mset (coll_order s))"
    unfolding recs_def by blast
next
  assume "list_orders db 0 = (Inr docs, db')"
  then show "\<exists>s. db = Some s \<and>
         docs = map (\<lambda>d. serialize_doc (order_doc d)) (rev (sort_key fst (coll_order s)))"
    unfolding list_orders_Inr by (auto simp: cursor_limit_def)
next
  show "list_orders_query db None = list_orders db 20"
    by (simp add: list_orders_query_def)
next
  show "list_orders_query db (Some limit) = list_orders db limit"
    by (simp add: list_orders_query_def)
next
  assume "db = Some s \<and> answered 1 s \<and> int64 \<bar>limit\<bar>"
  then show "\<exists>docs db'. list_orders db limit = (Inr docs, db')"
    unfolding list_orders_Inr by simp
qed

lemma list_orders_example_one:
  "list_orders (Some orders_store) 1 =
     (Inr [serialize_doc (order_doc (5, order_of [] (Finite 0)))], Some orders_store)"
  by (simp add: list_orders_def find_order_sorted_desc_def handler_def sbind_def sreturn_def
      round_trip_def orders_store_def example_store_def cursor_limit_def int64_def)

theorem list_orders_positive_limit_witness:
  "(0::int) < 1 \<and>
   list_orders (Some orders_store) 1 =
     (Inr [serialize_doc (order_doc (5, order_of [] (Finite 0)))], Some orders_store) \<and>
   int (length [serialize_doc (order_doc (5, order_of [] (Finite 0)))]) \<le> 1"
  using list_orders_positive_limit
    [of 1 "Some orders_store" "[serialize_doc (order_doc (5, order_of [] (Finite 0)))]"
        "Some orders_store"]
    list_orders_example_one
  by simp

subsection \<open>Float arithmetic\<close>

lemma round_half_even_of_int: "round_half_even (of_int k) = k"
  by (simp add: round_half_even_def)

lemma pow2_neg: "pow2 (- int j) = 1 / 2 ^ j"
  by (auto simp: pow2_def)

lemma ilog2_of_int:
  assumes "0 < n"
  shows "ilog2 (of_int n) = bitlen n - 1"
proof -
  have q: "quotient_of (of_int n :: rat) = (n, 1)"
    using quotient_of_int [of n] by (simp add: Rat.of_int_def)
  from assms have b1: "1 \<le> bitlen n" by (simp add: bitlen_alt_def)
  have "(2::int) ^ nat (bitlen n - 1) \<le> n" using bitlen_bounds [OF assms] by simp
  then have "(of_int ((2::int) ^ nat (bitlen n - 1)) :: rat) \<le> of_int n"
    by (simp only: of_int_le_iff)
  then have "pow2 (bitlen n - 1) \<le> of_int n" using b1 by (simp add: pow2_def)
  moreover have "bitlen 1 = 1" by (simp add: bitlen_alt_def)
  ultimately show ?thesis by (simp add: ilog2_def q)
qed

lemma overflow_threshold: "(2::rat) ^ 63 < pow2 1024 - pow2 970"
proof -
  have "(2::rat) ^ 1024 = 2 ^ 970 * 2 ^ 54" by (simp add: power_add [symmetric])
  then have e: "pow2 1024 - pow2 970 = 2 ^ 970 * (2 ^ 54 - 1)"
    by (simp add: pow2_def algebra_simps)
  have "(2::rat) ^ 63 \<le> 2 ^ 970" by (rule power_increasing) simp_all
  moreover have "(2::rat) ^ 970 * 1 < 2 ^ 970 * (2 ^ 54 - 1)"
    by (rule mult_strict_left_mono) simp_all
  ultimately show ?thesis unfolding e by simp
qed

text \<open>An integer of at most 53 bits is a double: rounding leaves it as it is.\<close>

lemma rnd_of_int:
  assumes "n \<noteq> 0" and "\<bar>n\<bar> < 2 ^ 53"
  shows "rnd (of_int n) = Finite (of_int n)"
proof -
  define a where "a = \<bar>n\<bar>"
  from assms have a: "0 < a" "a < 2 ^ 53" by (simp_all add: a_def)
  have abs: "\<bar>of_int n :: rat\<bar> = of_int a" by (simp add: a_def)
  have "(2::int) ^ nat (bitlen a - 1) \<le> a" using bitlen_bounds [OF a(1)] by simp
  from this a(2) have lt: "(2::int) ^ nat (bitlen a - 1) < 2 ^ 53" by (rule le_less_trans)
  have "(1::int) < 2" by simp
  from power_less_imp_less_exp [OF this lt] have "nat (bitlen a - 1) < 53" .
  then have bl: "bitlen a \<le> 53" by simp
  from a(1) have b1: "1 \<le> bitlen a" by (simp add: bitlen_alt_def)
  define j where "j = nat (53 - bitlen a)"
  from bl b1 have j: "bitlen a - 1 - 52 = - int j" "j \<le> 52" by (simp_all add: j_def)
  have q: "max (ilog2 (of_int a) - 52) (- 1074) = - int j"
    using j by (simp add: ilog2_of_int [OF a(1)])
  have scaled: "(of_int a :: rat) / pow2 (- int j) = of_int (a * 2 ^ j)"
    by (simp add: pow2_neg)
  have m: "round_half_even ((of_int a :: rat) / pow2 (- int j)) = a * 2 ^ j"
    unfolding scaled by (rule round_half_even_of_int)
  from a(1) have m0: "a * 2 ^ j \<noteq> 0" by simp
  have y: "(of_int (a * 2 ^ j) :: rat) * pow2 (- int j) = of_int a"
    by (simp add: pow2_neg)
  have "(of_int a :: rat) < 2 ^ 63"
  proof -
    have "a < 2 ^ 63" using a(2) by (rule less_trans) simp
    then have "(of_int a :: rat) < of_int (2 ^ 63)" by (simp only: of_int_less_iff)
    then show ?thesis by simp
  qed
  with overflow_threshold have small: "\<not> pow2 1024 - pow2 970 \<le> (of_int a :: rat)" by simp
  have sign: "(if (of_int n :: rat) < 0 then - of_int a else of_int a) = (of_int n :: rat)"
    by (simp add: a_def)
  from assms(1) have nz: "(of_int n :: rat) \<noteq> 0" by simp
  show ?thesis
    unfolding rnd_def Let_def abs q m y using nz small m0 sign by simp
qed

lemma float_of_int_small: "\<bar>n\<bar> < 2 ^ 53 \<Longrightarrow> float_of_int n = Inr (Finite (of_int n))"
proof (cases "n = 0")
  case True
  then show ?thesis by (simp add: float_of_int_def rnd_def)
next
  case False
  assume "\<bar>n\<bar> < 2 ^ 53"
  with False show ?thesis by (simp add: float_of_int_def rnd_of_int)
qed

lemma rnd_not_NaN: "rnd x \<noteq> NaN"
  by (simp add: rnd_def Let_def signed_zero_def signed_inf_def)

lemma rnd_not_inf: "\<bar>x\<bar> < pow2 1024 - pow2 970 \<Longrightarrow> \<not> is_inf (rnd x)"
  by (simp add: rnd_def Let_def signed_zero_def signed_inf_def)

lemma float_of_int_finite: "float_of_int n = Inr f \<Longrightarrow> f \<noteq> NaN \<and> \<not> is_inf f"
  using rnd_not_NaN [of "of_int n"]
  by (cases "rnd (of_int n)") (auto simp: float_of_int_def)

lemma float_of_int_int64: "int64 n \<Longrightarrow> \<exists>f. float_of_int n = Inr f"
proof -
  assume "int64 n"
  then have "\<bar>n\<bar> \<le> 2 ^ 63" by (simp add: int64_def abs_le_iff)
  then have "(of_int \<bar>n\<bar> :: rat) \<le> of_int (2 ^ 63)" by (simp only: of_int_le_iff)
  then have "\<bar>of_int n :: rat\<bar> \<le> 2 ^ 63" by simp
  with overflow_threshold have "\<bar>of_int n :: rat\<bar> < pow2 1024 - pow2 970" by simp
  then have "\<not> is_inf (rnd (of_int n))" by (rule rnd_not_inf)
  then show ?thesis by (cases "rnd (of_int n)") (simp_all add: float_of_int_def)
qed

lemma fmul_zero: "f \<noteq> NaN \<Longrightarrow> \<not> is_inf f \<Longrightarrow> is_zero (fmul (Finite 0) f)"
  by (cases f) (simp_all add: fmul_def signed_zero_def)

lemma rnd_numeral: "(numeral k :: int) < 2 ^ 53 \<Longrightarrow> rnd (numeral k) = Finite (numeral k)"
  using rnd_of_int [of "numeral k"] by simp

lemma rnd_neg_numeral:
  "(numeral k :: int) < 2 ^ 53 \<Longrightarrow> rnd (- numeral k) = Finite (- numeral k)"
  using rnd_of_int [of "- numeral k"] by simp

lemma round_half_even_numeral: "round_half_even (numeral k) = numeral k"
  using round_half_even_of_int [of "numeral k"] by simp

lemma round_half_even_neg_numeral: "round_half_even (- numeral k) = - numeral k"
  using round_half_even_of_int [of "- numeral k"] by simp

lemma float_mul_10_2: "float_mul_int (Finite 10) 2 = Inr (Finite 20)"
  by (simp add: float_mul_int_def float_of_int_small fmul_def rnd_numeral)

lemma float_mul_5_1: "float_mul_int (Finite 5) 1 = Inr (Finite 5)"
  by (simp add: float_mul_int_def float_of_int_small fmul_def rnd_numeral)

lemma float_mul_10_neg: "float_mul_int (Finite 10) (- 1) = Inr (Finite (- 10))"
  by (simp add: float_mul_int_def float_of_int_small fmul_def rnd_neg_numeral)

lemma float_mul_0_3: "float_mul_int (Finite 0) 3 = Inr (Finite 0)"
  by (simp add: float_mul_int_def float_of_int_small fmul_def signed_zero_def)

lemma fadd_0_20: "fadd (Finite 0) (Finite 20) = Finite 20"
  by (simp add: fadd_def rnd_numeral)

lemma fadd_20_5: "fadd (Finite 20) (Finite 5) = Finite 25"
  by (simp add: fadd_def rnd_numeral)

lemma fadd_0_neg10: "fadd (Finite 0) (Finite (- 10)) = Finite (- 10)"
  by (simp add: fadd_def rnd_neg_numeral)

lemma fadd_0_0: "fadd (Finite 0) (Finite 0) = Finite 0"
  by (simp add: fadd_def)

lemma py_round_25: "py_round (Finite 25) 2 = Finite 25"
  by (simp add: py_round_def round_half_even_numeral rnd_numeral)

lemma py_round_neg10: "py_round (Finite (- 10)) 2 = Finite (- 10)"
  by (simp add: py_round_def round_half_even_neg_numeral rnd_neg_numeral)


subsection \<open>Order placement\<close>

lemma object_ids_Inr:
  "object_ids mids = Inr oids \<longleftrightarrow> list_all2 (\<lambda>m oid. ObjectId m = Inr oid) mids oids"
proof (induction mids arbitrary: oids)
  case Nil
  then show ?case by auto
next
  case (Cons m ms)
  show ?case
  proof (cases "ObjectId m")
    case (Inl e)
    then show ?thesis by (auto simp: list_all2_Cons1)
  next
    case (Inr oid)
    then show ?thesis
      using Cons by (cases "object_ids ms") (auto simp: list_all2_Cons1)
  qed
qed

lemma ObjectId_Inr_iff: "(\<exists>oid. ObjectId m = Inr oid) \<longleftrightarrow> is_valid m"
  by (auto simp: ObjectId_def is_valid_def split: option.splits)


lemma is_valid_str_oid: "is_valid (str_oid oid)"
  using ObjectId_str_oid [of oid] ObjectId_Inr_iff [of "str_oid oid"] by simp

text \<open>Whitespace is skipped: 22 digits and two spaces are read as 11 bytes.\<close>

lemma ObjectId_whitespace_example:
  "ObjectId ''0000000000000000000000  '' = Inr (replicate 11 0)"
  by (simp add: ObjectId_def isspace_def hexval_def upt_16 numeral_eq_Suc)


lemma object_ids_valid:
  "list_all is_valid mids \<Longrightarrow> \<exists>oids. object_ids mids = Inr oids"
proof (induction mids)
  case Nil
  then show ?case by simp
next
  case (Cons m ms)
  then obtain oids where "object_ids ms = Inr oids" by auto
  moreover from Cons.prems obtain bs where "ObjectId m = Inr bs"
    using ObjectId_Inr_iff [of m] by auto
  ultimately show ?case by simp
qed

lemma price_map_of_snoc:
  "price_map_of (docs @ [d]) = (price_map_of docs)(str_oid (fst d) \<mapsto> m_price (snd d))"
  by (simp add: price_map_of_def)

lemma price_map_of_eq:
  "price_map_of docs k =
     (if filter (\<lambda>d. str_oid (fst d) = k) docs = [] then None
      else Some (m_price (snd (last (filter (\<lambda>d. str_oid (fst d) = k) docs)))))"
proof (induction docs rule: rev_induct)
  case Nil
  then show ?case by (simp add: price_map_of_def)
next
  case (snoc d docs)
  then show ?case
    by (cases "str_oid (fst d) = k") (simp_all add: price_map_of_snoc)
qed

lemma snapshot_price_eq:
  "snapshot_price s mid =
     (if filter (\<lambda>d. str_oid (fst d) = mid) (coll_menuitem s) = [] then Finite 0
      else m_price (snd (last (filter (\<lambda>d. str_oid (fst d) = mid) (coll_menuitem s)))))"
  by (simp add: snapshot_price_def split: list.splits)

lemma snapshot_price_unmatched:
  "\<not> (\<exists>d \<in> set (coll_menuitem s). str_oid (fst d) = mid) \<Longrightarrow> snapshot_price s mid = Finite 0"
  by (simp add: snapshot_price_eq filter_empty_conv)

text \<open>A string the lookup in the store matches with no menu item is the string form of none.\<close>

lemma unmatched_in_store:
  "ObjectId mid = Inr bs \<Longrightarrow> \<not> (\<exists>d \<in> set (coll_menuitem s). binary (fst d) = bs) \<Longrightarrow>
     \<not> (\<exists>d \<in> set (coll_menuitem s). str_oid (fst d) = mid)"
  using ObjectId_eq_str_oid by blast

text \<open>The documents the lookup finds give every requested identity its snapshot price.\<close>

lemma price_map_snapshot:
  assumes "ObjectId mid = Inr bs" and "bs \<in> set oids"
  shows "dict_get (price_map_of (filter (\<lambda>d. binary (fst d) \<in> set oids) (coll_menuitem s))) mid (Finite 0)
           = snapshot_price s mid"
proof -
  have "str_oid (fst d) = mid \<Longrightarrow> binary (fst d) \<in> set oids" for d :: "objectid \<times> Menuitem"
    using assms ObjectId_eq_str_oid [of mid bs "fst d"] by simp
  then have "filter (\<lambda>d. str_oid (fst d) = mid) (filter (\<lambda>d. binary (fst d) \<in> set oids) (coll_menuitem s))
      = filter (\<lambda>d. str_oid (fst d) = mid) (coll_menuitem s)"
    by (auto intro: filter_cong)
  then show ?thesis
    by (simp add: dict_get_def price_map_of_eq snapshot_price_eq)
qed

lemma order_loop_Inr:
  "order_loop pm xs its tot = Inr (its', tot') \<Longrightarrow>
     its' = its @ map (\<lambda>i. \<lparr>oi_menuitem_id = menuitem_id i, oi_quantity = quantity i,
                             oi_price = dict_get pm (menuitem_id i) (Finite 0)\<rparr>) xs \<and>
     (\<exists>amounts.
        list_all2 (\<lambda>i a. float_mul_int (dict_get pm (menuitem_id i) (Finite 0)) (quantity i) = Inr a)
          xs amounts \<and>
        tot' = foldl fadd tot amounts)"
proof (induction xs arbitrary: its tot)
  case Nil
  then show ?case by simp
next
  case (Cons i rest)
  let ?price = "dict_get pm (menuitem_id i) (Finite 0)"
  let ?line = "\<lparr>oi_menuitem_id = menuitem_id i, oi_quantity = quantity i, oi_price = ?price\<rparr>"
  from Cons.prems obtain x where x: "float_mul_int ?price (quantity i) = Inr x"
    and rest: "order_loop pm rest (its @ [?line]) (fadd tot x) = Inr (its', tot')"
    by (cases "float_mul_int ?price (quantity i)") (simp_all add: Let_def)
  from Cons.IH [OF rest] obtain amounts where
    its': "its' = (its @ [?line]) @ map (\<lambda>i. \<lparr>oi_menuitem_id = menuitem_id i, oi_quantity = quantity i,
                             oi_price = dict_get pm (menuitem_id i) (Finite 0)\<rparr>) rest"
    and am: "list_all2 (\<lambda>i a. float_mul_int (dict_get pm (menuitem_id i) (Finite 0)) (quantity i) = Inr a)
          rest amounts"
    and tot': "tot' = foldl fadd (fadd tot x) amounts"
    by blast
  from x am have "list_all2 (\<lambda>i a. float_mul_int (dict_get pm (menuitem_id i) (Finite 0)) (quantity i) = Inr a)
          (i # rest) (x # amounts)" by simp
  moreover from tot' have "tot' = foldl fadd tot (x # amounts)" by simp
  ultimately show ?case using its' by (intro conjI exI [of _ "x # amounts"]) simp_all
qed

lemma order_loop_total:
  "list_all (\<lambda>i. \<exists>f. float_of_int (quantity i) = Inr f) xs \<Longrightarrow>
     \<exists>its' tot'. order_loop pm xs its tot = Inr (its', tot')"
proof (induction xs arbitrary: its tot)
  case Nil
  then show ?case by simp
next
  case (Cons i rest)
  then obtain f where f: "float_of_int (quantity i) = Inr f" by auto
  from Cons have "\<And>its tot. \<exists>its' tot'. order_loop pm rest its tot = Inr (its', tot')" by simp
  with f show ?case by (simp add: Let_def float_mul_int_def)
qed

lemma answered_2:
  "answered 2 s \<longleftrightarrow> answered 1 s \<and> answered 1 (s\<lparr>faults := tl (faults s)\<rparr>)"
  using answered_Suc [of 1 s] by (simp add: numeral_2_eq_2)

lemma find_menuitem_id_in_Inr:
  "find_menuitem_id_in oids s = (Inr docs, s') \<longleftrightarrow>
     answered 1 s \<and> s' = s\<lparr>faults := tl (faults s)\<rparr> \<and>
     docs = filter (\<lambda>d. binary (fst d) \<in> set oids) (coll_menuitem s)"
  unfolding find_menuitem_id_in_def query_Inr by auto

lemma find_menuitem_id_in_Inl:
  "find_menuitem_id_in oids s = (Inl e, s') \<longleftrightarrow> round_trip s = (Inl e, s')"
  unfolding find_menuitem_id_in_def query_Inl by simp

lemma insert_one_order_Inr:
  "insert_one_order ord s = (Inr oid, s') \<longleftrightarrow>
     list_all (\<lambda>i. int64 (oi_quantity i)) (o_items ord) \<and> answered 1 s \<and> oid = next_oid s \<and>
     s' = s\<lparr>faults := tl (faults s), coll_order := coll_order s @ [(next_oid s, ord)],
           next_oid := next_oid s + 1\<rparr>"
  by (cases s) (auto simp: insert_one_order_def sbind_Inr round_trip_Inr sraise_def)

lemma insert_one_order_Inl:
  "insert_one_order ord s = (Inl e, s') \<Longrightarrow> coll_order s' = coll_order s"
  by (cases s) (auto simp: insert_one_order_def sbind_Inl round_trip_Inl sraise_def split: if_splits)

lemma place_order_body_Inr:
  "place_order_body p s = (Inr resp, s') \<longleftrightarrow>
     (\<exists>oids its tot.
        object_ids (map menuitem_id (items p)) = Inr oids \<and>
        answered 2 s \<and>
        order_loop (price_map_of (filter (\<lambda>d. binary (fst d) \<in> set oids) (coll_menuitem s)))
          (items p) [] (Finite 0) = Inr (its, tot) \<and>
        list_all (\<lambda>i. int64 (oi_quantity i)) its \<and>
        resp = \<lparr>resp_id = str_oid (next_oid s), resp_total = py_round tot 2,
                resp_status = ''placed''\<rparr> \<and>
        s' = s\<lparr>faults := tl (tl (faults s)),
              coll_order := coll_order s @ [(next_oid s, new_order p its tot)],
              next_oid := next_oid s + 1\<rparr>)"
proof (cases "object_ids (map menuitem_id (items p))")
  case (Inl e)
  then show ?thesis by (simp add: place_order_body_def sraise_def)
next
  case (Inr oids)
  let ?docs = "filter (\<lambda>d. binary (fst d) \<in> set oids) (coll_menuitem s)"
  show ?thesis
  proof (cases "order_loop (price_map_of ?docs) (items p) [] (Finite 0)")
    case (Inl e)
    with Inr show ?thesis
      by (auto simp: place_order_body_def sbind_Inr find_menuitem_id_in_Inr sraise_def)
  next
    case loop: (Inr r)
    obtain its tot where r: "r = (its, tot)" by (cases r)
    have o: "o_items (new_order p its tot) = its" by (simp add: new_order_def)
    from Inr loop r show ?thesis
      by (cases s)
        (auto simp: place_order_body_def sbind_Inr find_menuitem_id_in_Inr insert_one_order_Inr
          sreturn_def answered_2 o)
  qed
qed

lemma place_order_Inr:
  "place_order db p = (Inr resp, db') \<longleftrightarrow>
     (\<exists>s s'. db = Some s \<and> db' = Some s' \<and> place_order_body p s = (Inr resp, s'))"
  unfolding place_order_def by (rule handler_Inr)


lemma list_all2_memberD:
  "list_all2 P xs ys \<Longrightarrow> x \<in> set xs \<Longrightarrow> \<exists>y \<in> set ys. P x y"
  by (induction rule: list_all2_induct) auto

lemma list_all2_Inr_unique:
  "list_all2 (\<lambda>i a. f i = Inr a) xs as \<Longrightarrow> list_all2 (\<lambda>i a. f i = Inr a) xs bs \<Longrightarrow> as = bs"
proof (induction xs arbitrary: as bs)
  case Nil
  then show ?case by simp
next
  case (Cons x xs)
  then show ?case by (auto simp: list_all2_Cons1)
qed

text \<open>What a successful order placement has done, in terms of the snapshot prices.\<close>

lemma place_order_lines:
  assumes "place_order db p = (Inr resp, db')"
  obtains s s' amounts where
    "db = Some s" and "db' = Some s'" and "answered 2 s"
    and "list_all is_valid (map menuitem_id (items p))"
    and "list_all (\<lambda>i. int64 (quantity i)) (items p)"
    and "list_all2 (\<lambda>i a. float_mul_int (snapshot_price s (menuitem_id i)) (quantity i) = Inr a)
           (items p) amounts"
    and "s' = s\<lparr>faults := tl (tl (faults s)),
              coll_order := coll_order s @
                [(next_oid s,
                  new_order p
                    (map (\<lambda>i. \<lparr>oi_menuitem_id = menuitem_id i, oi_quantity = quantity i,
                                 oi_price = snapshot_price s (menuitem_id i)\<rparr>) (items p))
                    (foldl fadd (Finite 0) amounts))],
              next_oid := next_oid s + 1\<rparr>"
    and "resp = \<lparr>resp_id = str_oid (next_oid s),
                  resp_total = py_round (foldl fadd (Finite 0) amounts) 2,
                  resp_status = ''placed''\<rparr>"
proof -
  from assms obtain s s' where s: "db = Some s" "db' = Some s'"
    and body: "place_order_body p s = (Inr resp, s')"
    unfolding place_order_Inr by (elim exE conjE)
  from body obtain oids its tot where
    ids: "object_ids (map menuitem_id (items p)) = Inr oids"
    and ans: "answered 2 s"
    and loop: "order_loop (price_map_of (filter (\<lambda>d. binary (fst d) \<in> set oids) (coll_menuitem s)))
          (items p) [] (Finite 0) = Inr (its, tot)"
    and enc: "list_all (\<lambda>i. int64 (oi_quantity i)) its"
    and resp: "resp = \<lparr>resp_id = str_oid (next_oid s), resp_total = py_round tot 2,
                resp_status = ''placed''\<rparr>"
    and s': "s' = s\<lparr>faults := tl (tl (faults s)),
              coll_order := coll_order s @ [(next_oid s, new_order p its tot)],
              next_oid := next_oid s + 1\<rparr>"
    unfolding place_order_body_Inr by (elim exE conjE)
  let ?pm = "price_map_of (filter (\<lambda>d. binary (fst d) \<in> set oids) (coll_menuitem s))"
  from ids have all2: "list_all2 (\<lambda>m oid. ObjectId m = Inr oid) (map menuitem_id (items p)) oids"
    by (simp only: object_ids_Inr)
  have price: "dict_get ?pm (menuitem_id i) (Finite 0) = snapshot_price s (menuitem_id i)"
    if "i \<in> set (items p)" for i
  proof -
    from that have "menuitem_id i \<in> set (map menuitem_id (items p))" by simp
    from list_all2_memberD [OF all2 this]
    obtain oid where "oid \<in> set oids" "ObjectId (menuitem_id i) = Inr oid" by blast
    then show ?thesis by (simp add: price_map_snapshot)
  qed
  have valid: "list_all is_valid (map menuitem_id (items p))"
    unfolding list_all_iff
  proof
    fix m assume "m \<in> set (map menuitem_id (items p))"
    from list_all2_memberD [OF all2 this] have "\<exists>oid. ObjectId m = Inr oid" by blast
    then show "is_valid m" by (simp only: ObjectId_Inr_iff)
  qed
  from order_loop_Inr [OF loop] obtain amounts where
    its: "its = map (\<lambda>i. \<lparr>oi_menuitem_id = menuitem_id i, oi_quantity = quantity i,
                             oi_price = dict_get ?pm (menuitem_id i) (Finite 0)\<rparr>) (items p)"
    and am: "list_all2 (\<lambda>i a. float_mul_int (dict_get ?pm (menuitem_id i) (Finite 0)) (quantity i) = Inr a)
          (items p) amounts"
    and tot: "tot = foldl fadd (Finite 0) amounts"
    by auto
  have its': "its = map (\<lambda>i. \<lparr>oi_menuitem_id = menuitem_id i, oi_quantity = quantity i,
                             oi_price = snapshot_price s (menuitem_id i)\<rparr>) (items p)"
    unfolding its by (rule map_cong) (simp_all add: price)
  have am': "list_all2 (\<lambda>i a. float_mul_int (snapshot_price s (menuitem_id i)) (quantity i) = Inr a)
           (items p) amounts"
    using am by (rule list.rel_mono_strong) (simp add: price)
  have q: "list_all (\<lambda>i. int64 (quantity i)) (items p)"
    using enc unfolding its' by (simp add: list_all_iff)
  show ?thesis
    using s ans valid q am' s' resp unfolding its' tot by (rule that)
qed

lemma place_order_succeeds:
  assumes "answered 2 s" and "list_all is_valid (map menuitem_id (items p))"
    and "list_all (\<lambda>i. int64 (quantity i)) (items p)"
  shows "\<exists>resp s'. place_order (Some s) p = (Inr resp, Some s')"
proof -
  from object_ids_valid [OF assms(2)] obtain oids where
    ids: "object_ids (map menuitem_id (items p)) = Inr oids" by blast
  let ?pm = "price_map_of (filter (\<lambda>d. binary (fst d) \<in> set oids) (coll_menuitem s))"
  from assms(3) have "list_all (\<lambda>i. \<exists>f. float_of_int (quantity i) = Inr f) (items p)"
    by (simp add: list_all_iff float_of_int_int64)
  from order_loop_total [OF this] obtain its tot where
    loop: "order_loop ?pm (items p) [] (Finite 0) = Inr (its, tot)" by blast
  from order_loop_Inr [OF loop] have "map oi_quantity its = map quantity (items p)"
    by (simp add: comp_def)
  then have "list_all int64 (map oi_quantity its)"
    using assms(3) by (simp add: list_all_iff)
  then have enc: "list_all (\<lambda>i. int64 (oi_quantity i)) its"
    by (simp add: list_all_iff)
  have "place_order_body p s =
      (Inr \<lparr>resp_id = str_oid (next_oid s), resp_total = py_round tot 2, resp_status = ''placed''\<rparr>,
       s\<lparr>faults := tl (tl (faults s)),
         coll_order := coll_order s @ [(next_oid s, new_order p its tot)],
         next_oid := next_oid s + 1\<rparr>)"
    unfolding place_order_body_Inr using ids assms(1) loop enc by blast
  then show ?thesis unfolding place_order_Inr by blast
qed

text \<open>The two together: the response and the store after a request the store answers.\<close>

lemma place_order_eq:
  assumes "answered 2 s" and "list_all is_valid (map menuitem_id (items p))"
    and "list_all (\<lambda>i. int64 (quantity i)) (items p)"
    and "list_all2 (\<lambda>i a. float_mul_int (snapshot_price s (menuitem_id i)) (quantity i) = Inr a)
           (items p) amounts"
  shows "place_order (Some s) p =
     (Inr \<lparr>resp_id = str_oid (next_oid s),
           resp_total = py_round (foldl fadd (Finite 0) amounts) 2,
           resp_status = ''placed''\<rparr>,
      Some (s\<lparr>faults := tl (tl (faults s)),
              coll_order := coll_order s @
                [(next_oid s,
                  new_order p
                    (map (\<lambda>i. \<lparr>oi_menuitem_id = menuitem_id i, oi_quantity = quantity i,
                                 oi_price = snapshot_price s (menuitem_id i)\<rparr>) (items p))
                    (foldl fadd (Finite 0) amounts))],
              next_oid := next_oid s + 1\<rparr>))"
proof -
  from place_order_succeeds [OF assms(1-3)] obtain resp s' where
    run: "place_order (Some s) p = (Inr resp, Some s')" by (elim exE)
  from run obtain t t' amounts' where t: "Some s = Some t" "Some s' = Some t'"
    and am: "list_all2 (\<lambda>i a. float_mul_int (snapshot_price t (menuitem_id i)) (quantity i) = Inr a)
           (items p) amounts'"
    and t': "t' = t\<lparr>faults := tl (tl (faults t)),
              coll_order := coll_order t @
                [(next_oid t,
                  new_order p
                    (map (\<lambda>i. \<lparr>oi_menuitem_id = menuitem_id i, oi_quantity = quantity i,
                                 oi_price = snapshot_price t (menuitem_id i)\<rparr>) (items p))
                    (foldl fadd (Finite 0) amounts'))],
              next_oid := next_oid t + 1\<rparr>"
    and resp: "resp = \<lparr>resp_id = str_oid (next_oid t),
                  resp_total = py_round (foldl fadd (Finite 0) amounts') 2,
                  resp_status = ''placed''\<rparr>"
    by (rule place_order_lines)
  from t have ts: "t = s" "t' = s'" by simp_all
  from am have "amounts' = amounts"
    unfolding ts using assms(4) by (rule list_all2_Inr_unique)
  with run t' resp show ?thesis unfolding ts by simp
qed



text \<open>
  C10: after every successful order placement the response agrees with the order that
  was persisted: the order appended to the order collection has as its total the total
  of the response, which is \<open>round(total, 2)\<close> of the running total \<open>t\<close>; both have
  the status \<open>placed\<close>; and the \<open>id\<close> of the response is the string form of the
  identity the order is stored under.
\<close>

theorem response_agrees_with_stored_order:
  "place_order db p = (Inr resp, db') \<Longrightarrow>
     \<exists>s s' ord t. db = Some s \<and> db' = Some s' \<and>
       coll_order s' = coll_order s @ [(next_oid s, ord)] \<and>
       resp_id resp = str_oid (next_oid s) \<and>
       o_total ord = Some (resp_total resp) \<and> resp_total resp = py_round t 2 \<and>
       o_status ord = ''placed'' \<and> resp_status resp = ''placed''"
proof -
  assume "place_order db p = (Inr resp, db')"
  then obtain s s' where s: "db = Some s" "db' = Some s'"
    and body: "place_order_body p s = (Inr resp, s')"
    unfolding place_order_Inr by (elim exE conjE)
  from body obtain its tot where
    resp: "resp = \<lparr>resp_id = str_oid (next_oid s), resp_total = py_round tot 2,
                resp_status = ''placed''\<rparr>"
    and s': "s' = s\<lparr>faults := tl (tl (faults s)),
              coll_order := coll_order s @ [(next_oid s, new_order p its tot)],
              next_oid := next_oid s + 1\<rparr>"
    unfolding place_order_body_Inr by (elim exE conjE)
  have 1: "coll_order s' = coll_order s @ [(next_oid s, new_order p its tot)]"
    unfolding s' by simp
  have 2: "o_total (new_order p its tot) = Some (resp_total resp)"
    unfolding new_order_def resp by simp
  have 3: "o_status (new_order p its tot) = ''placed''"
    unfolding new_order_def by simp
  have 4: "resp_status resp = ''placed''" "resp_id resp = str_oid (next_oid s)"
    "resp_total resp = py_round tot 2"
    unfolding resp by simp_all
  from s 1 2 3 4 show ?thesis
    by (intro exI [of _ s] exI [of _ s'] exI [of _ "new_order p its tot"] exI [of _ tot] conjI)
qed

text \<open>The example store answers two round trips, and its two menu items cost 10.0 and 5.0.\<close>

lemma example_store_answered_2: "answered 2 example_store"
  by (simp add: answered_def example_store_def)

lemma snapshot_price_example:
  "snapshot_price example_store (str_oid 2) = Finite 10"
  "snapshot_price example_store (str_oid 3) = Finite 5"
  "snapshot_price example_store (str_oid 9) = Finite 0"
  by (simp_all add: snapshot_price_def example_store_def str_oid_inj item_a_def item_b_def)

lemma int64_small: "int64 2" "int64 1" "int64 3" "int64 (- 1)"
  by (simp_all add: int64_def)

text \<open>Two of \<open>A\<close> and one of \<open>B\<close>, ordered from the example store.\<close>

lemma place_order_example:
  "place_order (Some example_store)
     (request [\<lparr>menuitem_id = str_oid 2, quantity = 2\<rparr>, \<lparr>menuitem_id = str_oid 3, quantity = 1\<rparr>]) =
   (Inr \<lparr>resp_id = str_oid 4, resp_total = Finite 25, resp_status = ''placed''\<rparr>,
    Some (example_store
      \<lparr>coll_order :=
         [(4, order_of [\<lparr>oi_menuitem_id = str_oid 2, oi_quantity = 2, oi_price = Finite 10\<rparr>,
                        \<lparr>oi_menuitem_id = str_oid 3, oi_quantity = 1, oi_price = Finite 5\<rparr>]
                (Finite 25))],
       next_oid := 5\<rparr>))"
proof -
  let ?p = "request [\<lparr>menuitem_id = str_oid 2, quantity = 2\<rparr>, \<lparr>menuitem_id = str_oid 3, quantity = 1\<rparr>]"
  have i: "items ?p = [\<lparr>menuitem_id = str_oid 2, quantity = 2\<rparr>, \<lparr>menuitem_id = str_oid 3, quantity = 1\<rparr>]"
    by (simp add: request_def)
  have v: "list_all is_valid (map menuitem_id (items ?p))"
    unfolding i by (simp add: is_valid_str_oid)
  have q: "list_all (\<lambda>i. int64 (quantity i)) (items ?p)"
    unfolding i by (simp add: int64_small)
  have a: "list_all2 (\<lambda>i a. float_mul_int (snapshot_price example_store (menuitem_id i)) (quantity i) = Inr a)
      (items ?p) [Finite 20, Finite 5]"
    unfolding i by (simp add: snapshot_price_example float_mul_10_2 float_mul_5_1)
  have t: "py_round (foldl fadd (Finite 0) [Finite 20, Finite 5]) 2 = Finite 25"
    by (simp add: fadd_0_20 fadd_20_5 py_round_25)
  show ?thesis
    unfolding place_order_eq [OF example_store_answered_2 v q a]
    by (simp add: t i snapshot_price_example new_order_def order_of_def fadd_0_20 fadd_20_5 py_round_25)
      (simp add: example_store_def request_def)
qed

theorem response_agrees_with_stored_order_witness:
  "place_order (Some example_store)
     (request [\<lparr>menuitem_id = str_oid 2, quantity = 2\<rparr>, \<lparr>menuitem_id = str_oid 3, quantity = 1\<rparr>]) =
   (Inr \<lparr>resp_id = str_oid 4, resp_total = Finite 25, resp_status = ''placed''\<rparr>,
    Some (example_store
      \<lparr>coll_order :=
         [(4, order_of [\<lparr>oi_menuitem_id = str_oid 2, oi_quantity = 2, oi_price = Finite 10\<rparr>,
                        \<lparr>oi_menuitem_id = str_oid 3, oi_quantity = 1, oi_price = Finite 5\<rparr>]
                (Finite 25))],
       next_oid := 5\<rparr>)) \<and>
   (\<exists>ord t. coll_order (example_store
      \<lparr>coll_order :=
         [(4, order_of [\<lparr>oi_menuitem_id = str_oid 2, oi_quantity = 2, oi_price = Finite 10\<rparr>,
                        \<lparr>oi_menuitem_id = str_oid 3, oi_quantity = 1, oi_price = Finite 5\<rparr>]
                (Finite 25))],
       next_oid := 5\<rparr>) = [(4, ord)] \<and>
      o_total ord = Some (Finite 25) \<and> Finite 25 = py_round t 2 \<and> o_status ord = ''placed'')"
proof -
  from response_agrees_with_stored_order [OF place_order_example]
  obtain s s' ord t where a: "Some example_store = Some s"
    and b: "Some (example_store
      \<lparr>coll_order :=
         [(4, order_of [\<lparr>oi_menuitem_id = str_oid 2, oi_quantity = 2, oi_price = Finite 10\<rparr>,
                        \<lparr>oi_menuitem_id = str_oid 3, oi_quantity = 1, oi_price = Finite 5\<rparr>]
                (Finite 25))],
       next_oid := 5\<rparr>) = Some s'"
    and c: "coll_order s' = coll_order s @ [(next_oid s, ord)]"
    and d: "o_total ord = Some (resp_total \<lparr>resp_id = str_oid 4, resp_total = Finite 25, resp_status = ''placed''\<rparr>)"
    and e: "resp_total \<lparr>resp_id = str_oid 4, resp_total = Finite 25, resp_status = ''placed''\<rparr> = py_round t 2"
    and f: "o_status ord = ''placed''"
    by (elim exE conjE)
  from a have s: "s = example_store" by simp
  from b have s': "s' = example_store
      \<lparr>coll_order :=
         [(4, order_of [\<lparr>oi_menuitem_id = str_oid 2, oi_quantity = 2, oi_price = Finite 10\<rparr>,
                        \<lparr>oi_menuitem_id = str_oid 3, oi_quantity = 1, oi_price = Finite 5\<rparr>]
                (Finite 25))],
       next_oid := 5\<rparr>"
    by simp
  have 1: "coll_order s' = [(4, ord)]"
    using c unfolding s by (simp add: example_store_def)
  from d have 2: "o_total ord = Some (Finite 25)" by simp
  from e have 3: "Finite 25 = py_round t 2" by simp
  from 1 2 3 f have "\<exists>ord t. coll_order s' = [(4, ord)] \<and>
      o_total ord = Some (Finite 25) \<and> Finite 25 = py_round t 2 \<and> o_status ord = ''placed''"
    by (intro exI [of _ ord] exI [of _ t] conjI)
  then show ?thesis unfolding s' using place_order_example by (intro conjI)
qed

text \<open>More of the arithmetic of the examples.\<close>

lemma float_mul_10_1: "float_mul_int (Finite 10) 1 = Inr (Finite 10)"
  by (simp add: float_mul_int_def float_of_int_small fmul_def rnd_numeral)

lemma fadd_0_10: "fadd (Finite 0) (Finite 10) = Finite 10"
  by (simp add: fadd_def rnd_numeral)

lemma fadd_10_0: "fadd (Finite 10) (Finite 0) = Finite 10"
  by (simp add: fadd_def rnd_numeral)

lemma py_round_10: "py_round (Finite 10) 2 = Finite 10"
  by (simp add: py_round_def round_half_even_numeral rnd_numeral)

text \<open>A price of 0.0 times a quantity is a zero.\<close>

lemma float_mul_zero: "float_mul_int (Finite 0) q = Inr a \<Longrightarrow> is_zero a"
proof -
  assume "float_mul_int (Finite 0) q = Inr a"
  then obtain f where f: "float_of_int q = Inr f" and a: "a = fmul (Finite 0) f"
    by (cases "float_of_int q") (simp_all add: float_mul_int_def)
  from float_of_int_finite [OF f] show ?thesis unfolding a by (simp add: fmul_zero)
qed



text \<open>
  C3: a line whose menu item identity is in the store's format but is the identity of no
  menu item in the store is given the price 0.0, and the request succeeds all the same.
  For a request the store answers, with identities in the store's format and quantities
  the store can encode, the order is persisted with one line for each line of the request,
  in order; each line adds its persisted price times its quantity to the running total;
  and a line whose identity is the string form of no stored menu item (in particular one
  for which the lookup in the store finds no record) has the persisted price 0.0 and adds a
  zero to the total.
\<close>

theorem unmatched_identity_costs_nothing:
  "answered 2 s \<and> list_all is_valid (map menuitem_id (items p)) \<and>
   list_all (\<lambda>i. int64 (quantity i)) (items p) \<longrightarrow>
     (\<exists>resp s' ord amounts.
        place_order (Some s) p = (Inr resp, Some s') \<and>
        coll_order s' = coll_order s @ [(next_oid s, ord)] \<and>
        resp_total resp = py_round (foldl fadd (Finite 0) amounts) 2 \<and>
        o_total ord = Some (py_round (foldl fadd (Finite 0) amounts) 2) \<and>
        length (o_items ord) = length (items p) \<and> length amounts = length (items p) \<and>
        (\<forall>k < length (items p).
           oi_menuitem_id (o_items ord ! k) = menuitem_id (items p ! k) \<and>
           oi_quantity (o_items ord ! k) = quantity (items p ! k) \<and>
           float_mul_int (oi_price (o_items ord ! k)) (quantity (items p ! k)) = Inr (amounts ! k) \<and>
           (\<not> (\<exists>d \<in> set (coll_menuitem s). str_oid (fst d) = menuitem_id (items p ! k)) \<longrightarrow>
              oi_price (o_items ord ! k) = Finite 0 \<and> is_zero (amounts ! k)) \<and>
           (\<forall>bs. ObjectId (menuitem_id (items p ! k)) = Inr bs \<and>
                 \<not> (\<exists>d \<in> set (coll_menuitem s). binary (fst d) = bs) \<longrightarrow>
              oi_price (o_items ord ! k) = Finite 0 \<and> is_zero (amounts ! k))))"
proof
  assume "answered 2 s \<and> list_all is_valid (map menuitem_id (items p)) \<and>
    list_all (\<lambda>i. int64 (quantity i)) (items p)"
  then have ans: "answered 2 s" and v: "list_all is_valid (map menuitem_id (items p))"
    and q: "list_all (\<lambda>i. int64 (quantity i)) (items p)"
    by simp_all
  from place_order_succeeds [OF ans v q] obtain resp s' where
    run: "place_order (Some s) p = (Inr resp, Some s')" by (elim exE)
  from run obtain t t' amounts where t: "Some s = Some t" "Some s' = Some t'"
    and am: "list_all2 (\<lambda>i a. float_mul_int (snapshot_price t (menuitem_id i)) (quantity i) = Inr a)
           (items p) amounts"
    and t': "t' = t\<lparr>faults := tl (tl (faults t)),
              coll_order := coll_order t @
                [(next_oid t,
                  new_order p
                    (map (\<lambda>i. \<lparr>oi_menuitem_id = menuitem_id i, oi_quantity = quantity i,
                                 oi_price = snapshot_price t (menuitem_id i)\<rparr>) (items p))
                    (foldl fadd (Finite 0) amounts))],
              next_oid := next_oid t + 1\<rparr>"
    and resp: "resp = \<lparr>resp_id = str_oid (next_oid t),
                  resp_total = py_round (foldl fadd (Finite 0) amounts) 2,
                  resp_status = ''placed''\<rparr>"
    by (rule place_order_lines)
  from t have ts: "t = s" "t' = s'" by simp_all
  let ?its = "map (\<lambda>i. \<lparr>oi_menuitem_id = menuitem_id i, oi_quantity = quantity i,
                          oi_price = snapshot_price s (menuitem_id i)\<rparr>) (items p)"
  let ?ord = "new_order p ?its (foldl fadd (Finite 0) amounts)"
  have 1: "coll_order s' = coll_order s @ [(next_oid s, ?ord)]"
    using t' unfolding ts by simp
  have 2: "resp_total resp = py_round (foldl fadd (Finite 0) amounts) 2"
    unfolding resp by simp
  have 3: "o_total ?ord = Some (py_round (foldl fadd (Finite 0) amounts) 2)"
    by (simp add: new_order_def)
  have its: "o_items ?ord = ?its" by (simp add: new_order_def)
  have 4: "length (o_items ?ord) = length (items p)" unfolding its by simp
  from am have 5: "length amounts = length (items p)" by (simp add: list_all2_lengthD)
  have 6: "\<forall>k < length (items p).
           oi_menuitem_id (o_items ?ord ! k) = menuitem_id (items p ! k) \<and>
           oi_quantity (o_items ?ord ! k) = quantity (items p ! k) \<and>
           float_mul_int (oi_price (o_items ?ord ! k)) (quantity (items p ! k)) = Inr (amounts ! k) \<and>
           (\<not> (\<exists>d \<in> set (coll_menuitem s). str_oid (fst d) = menuitem_id (items p ! k)) \<longrightarrow>
              oi_price (o_items ?ord ! k) = Finite 0 \<and> is_zero (amounts ! k)) \<and>
           (\<forall>bs. ObjectId (menuitem_id (items p ! k)) = Inr bs \<and>
                 \<not> (\<exists>d \<in> set (coll_menuitem s). binary (fst d) = bs) \<longrightarrow>
              oi_price (o_items ?ord ! k) = Finite 0 \<and> is_zero (amounts ! k))"
  proof (intro allI impI)
    fix k assume k: "k < length (items p)"
    let ?i = "items p ! k"
    have line: "o_items ?ord ! k = \<lparr>oi_menuitem_id = menuitem_id ?i, oi_quantity = quantity ?i,
        oi_price = snapshot_price s (menuitem_id ?i)\<rparr>"
      unfolding its using k by simp
    from am k have a: "float_mul_int (snapshot_price s (menuitem_id ?i)) (quantity ?i) = Inr (amounts ! k)"
      unfolding ts by (rule list_all2_nthD)
    have zero: "oi_price (o_items ?ord ! k) = Finite 0 \<and> is_zero (amounts ! k)"
      if "\<not> (\<exists>d \<in> set (coll_menuitem s). str_oid (fst d) = menuitem_id ?i)"
    proof -
      from that have z: "snapshot_price s (menuitem_id ?i) = Finite 0"
        by (rule snapshot_price_unmatched)
      from a have "is_zero (amounts ! k)" unfolding z by (rule float_mul_zero)
      with z show ?thesis unfolding line by simp
    qed
    have zero': "oi_price (o_items ?ord ! k) = Finite 0 \<and> is_zero (amounts ! k)"
      if "ObjectId (menuitem_id ?i) = Inr bs \<and> \<not> (\<exists>d \<in> set (coll_menuitem s). binary (fst d) = bs)"
      for bs
    proof -
      from that have "ObjectId (menuitem_id ?i) = Inr bs"
        and "\<not> (\<exists>d \<in> set (coll_menuitem s). binary (fst d) = bs)"
        by simp_all
      then have "\<not> (\<exists>d \<in> set (coll_menuitem s). str_oid (fst d) = menuitem_id ?i)"
        by (rule unmatched_in_store)
      then show ?thesis by (rule zero)
    qed
    from a zero zero' show "oi_menuitem_id (o_items ?ord ! k) = menuitem_id ?i \<and>
           oi_quantity (o_items ?ord ! k) = quantity ?i \<and>
           float_mul_int (oi_price (o_items ?ord ! k)) (quantity ?i) = Inr (amounts ! k) \<and>
           (\<not> (\<exists>d \<in> set (coll_menuitem s). str_oid (fst d) = menuitem_id ?i) \<longrightarrow>
              oi_price (o_items ?ord ! k) = Finite 0 \<and> is_zero (amounts ! k)) \<and>
           (\<forall>bs. ObjectId (menuitem_id ?i) = Inr bs \<and>
                 \<not> (\<exists>d \<in> set (coll_menuitem s). binary (fst d) = bs) \<longrightarrow>
              oi_price (o_items ?ord ! k) = Finite 0 \<and> is_zero (amounts ! k))"
      unfolding line by (intro conjI allI impI) simp_all
  qed
  from run 1 2 3 4 5 6 show "\<exists>resp s' ord amounts.
        place_order (Some s) p = (Inr resp, Some s') \<and>
        coll_order s' = coll_order s @ [(next_oid s, ord)] \<and>
        resp_total resp = py_round (foldl fadd (Finite 0) amounts) 2 \<and>
        o_total ord = Some (py_round (foldl fadd (Finite 0) amounts) 2) \<and>
        length (o_items ord) = length (items p) \<and> length amounts = length (items p) \<and>
        (\<forall>k < length (items p).
           oi_menuitem_id (o_items ord ! k) = menuitem_id (items p ! k) \<and>
           oi_quantity (o_items ord ! k) = quantity (items p ! k) \<and>
           float_mul_int (oi_price (o_items ord ! k)) (quantity (items p ! k)) = Inr (amounts ! k) \<and>
           (\<not> (\<exists>d \<in> set (coll_menuitem s). str_oid (fst d) = menuitem_id (items p ! k)) \<longrightarrow>
              oi_price (o_items ord ! k) = Finite 0 \<and> is_zero (amounts ! k)) \<and>
           (\<forall>bs. ObjectId (menuitem_id (items p ! k)) = Inr bs \<and>
                 \<not> (\<exists>d \<in> set (coll_menuitem s). binary (fst d) = bs) \<longrightarrow>
              oi_price (o_items ord ! k) = Finite 0 \<and> is_zero (amounts ! k)))"
    by (intro exI [of _ resp] exI [of _ s'] exI [of _ ?ord] exI [of _ amounts] conjI)
qed

text \<open>One of \<open>A\<close> and three of an item the example store does not have.\<close>

lemma place_order_unmatched_example:
  "place_order (Some example_store)
     (request [\<lparr>menuitem_id = str_oid 2, quantity = 1\<rparr>, \<lparr>menuitem_id = str_oid 9, quantity = 3\<rparr>]) =
   (Inr \<lparr>resp_id = str_oid 4, resp_total = Finite 10, resp_status = ''placed''\<rparr>,
    Some (example_store
      \<lparr>coll_order :=
         [(4, order_of [\<lparr>oi_menuitem_id = str_oid 2, oi_quantity = 1, oi_price = Finite 10\<rparr>,
                        \<lparr>oi_menuitem_id = str_oid 9, oi_quantity = 3, oi_price = Finite 0\<rparr>]
                (Finite 10))],
       next_oid := 5\<rparr>))"
proof -
  let ?p = "request [\<lparr>menuitem_id = str_oid 2, quantity = 1\<rparr>, \<lparr>menuitem_id = str_oid 9, quantity = 3\<rparr>]"
  have i: "items ?p = [\<lparr>menuitem_id = str_oid 2, quantity = 1\<rparr>, \<lparr>menuitem_id = str_oid 9, quantity = 3\<rparr>]"
    by (simp add: request_def)
  have v: "list_all is_valid (map menuitem_id (items ?p))"
    unfolding i by (simp add: is_valid_str_oid)
  have q: "list_all (\<lambda>i. int64 (quantity i)) (items ?p)"
    unfolding i by (simp add: int64_small)
  have a: "list_all2 (\<lambda>i a. float_mul_int (snapshot_price example_store (menuitem_id i)) (quantity i) = Inr a)
      (items ?p) [Finite 10, Finite 0]"
    unfolding i by (simp add: snapshot_price_example float_mul_10_1 float_mul_0_3)
  show ?thesis
    unfolding place_order_eq [OF example_store_answered_2 v q a]
    by (simp add: i snapshot_price_example new_order_def order_of_def fadd_0_10 fadd_10_0 py_round_10)
      (simp add: example_store_def request_def)
qed

theorem unmatched_identity_costs_nothing_witness:
  "answered 2 example_store \<and>
   place_order (Some example_store)
     (request [\<lparr>menuitem_id = str_oid 2, quantity = 1\<rparr>, \<lparr>menuitem_id = str_oid 9, quantity = 3\<rparr>]) =
   (Inr \<lparr>resp_id = str_oid 4, resp_total = Finite 10, resp_status = ''placed''\<rparr>,
    Some (example_store
      \<lparr>coll_order :=
         [(4, order_of [\<lparr>oi_menuitem_id = str_oid 2, oi_quantity = 1, oi_price = Finite 10\<rparr>,
                        \<lparr>oi_menuitem_id = str_oid 9, oi_quantity = 3, oi_price = Finite 0\<rparr>]
                (Finite 10))],
       next_oid := 5\<rparr>)) \<and>
   (\<exists>resp s' ord amounts.
      place_order (Some example_store)
        (request [\<lparr>menuitem_id = str_oid 2, quantity = 1\<rparr>, \<lparr>menuitem_id = str_oid 9, quantity = 3\<rparr>]) =
        (Inr resp, Some s') \<and>
      coll_order s' = coll_order example_store @ [(next_oid example_store, ord)] \<and>
      resp_total resp = py_round (foldl fadd (Finite 0) amounts) 2 \<and>
      oi_menuitem_id (o_items ord ! 1) = str_oid 9 \<and>
      oi_price (o_items ord ! 1) = Finite 0 \<and> is_zero (amounts ! 1))"
proof -
  let ?p = "request [\<lparr>menuitem_id = str_oid 2, quantity = 1\<rparr>, \<lparr>menuitem_id = str_oid 9, quantity = 3\<rparr>]"
  have i: "items ?p = [\<lparr>menuitem_id = str_oid 2, quantity = 1\<rparr>, \<lparr>menuitem_id = str_oid 9, quantity = 3\<rparr>]"
    by (simp add: request_def)
  have h: "answered 2 example_store \<and> list_all is_valid (map menuitem_id (items ?p)) \<and>
     list_all (\<lambda>i. int64 (quantity i)) (items ?p)"
    unfolding i by (simp add: example_store_answered_2 is_valid_str_oid int64_small)
  have u: "\<not> (\<exists>d \<in> set (coll_menuitem example_store). str_oid (fst d) = menuitem_id (items ?p ! 1))"
    unfolding i by (simp add: example_store_def str_oid_inj)
  from unmatched_identity_costs_nothing [where s = example_store and p = ?p, THEN mp, OF h]
  obtain resp s' ord amounts where
    run: "place_order (Some example_store) ?p = (Inr resp, Some s')"
    and c: "coll_order s' = coll_order example_store @ [(next_oid example_store, ord)]"
    and r: "resp_total resp = py_round (foldl fadd (Finite 0) amounts) 2"
    and lines: "\<forall>k < length (items ?p).
           oi_menuitem_id (o_items ord ! k) = menuitem_id (items ?p ! k) \<and>
           oi_quantity (o_items ord ! k) = quantity (items ?p ! k) \<and>
           float_mul_int (oi_price (o_items ord ! k)) (quantity (items ?p ! k)) = Inr (amounts ! k) \<and>
           (\<not> (\<exists>d \<in> set (coll_menuitem example_store). str_oid (fst d) = menuitem_id (items ?p ! k)) \<longrightarrow>
              oi_price (o_items ord ! k) = Finite 0 \<and> is_zero (amounts ! k)) \<and>
           (\<forall>bs. ObjectId (menuitem_id (items ?p ! k)) = Inr bs \<and>
                 \<not> (\<exists>d \<in> set (coll_menuitem example_store). binary (fst d) = bs) \<longrightarrow>
              oi_price (o_items ord ! k) = Finite 0 \<and> is_zero (amounts ! k))"
    by (elim exE conjE)
  have "1 < length (items ?p)" unfolding i by simp
  with lines have l1: "oi_menuitem_id (o_items ord ! 1) = menuitem_id (items ?p ! 1)"
    and z: "\<not> (\<exists>d \<in> set (coll_menuitem example_store). str_oid (fst d) = menuitem_id (items ?p ! 1)) \<longrightarrow>
              oi_price (o_items ord ! 1) = Finite 0 \<and> is_zero (amounts ! 1)"
    by simp_all
  from z u have z': "oi_price (o_items ord ! 1) = Finite 0" "is_zero (amounts ! 1)" by simp_all
  from l1 have l1': "oi_menuitem_id (o_items ord ! 1) = str_oid 9" unfolding i by simp
  from run c r l1' z' have "\<exists>resp s' ord amounts.
      place_order (Some example_store) ?p = (Inr resp, Some s') \<and>
      coll_order s' = coll_order example_store @ [(next_oid example_store, ord)] \<and>
      resp_total resp = py_round (foldl fadd (Finite 0) amounts) 2 \<and>
      oi_menuitem_id (o_items ord ! 1) = str_oid 9 \<and>
      oi_price (o_items ord ! 1) = Finite 0 \<and> is_zero (amounts ! 1)"
    by (intro exI [of _ resp] exI [of _ s'] exI [of _ ord] exI [of _ amounts] conjI)
  with example_store_answered_2 place_order_unmatched_example show ?thesis by (intro conjI)
qed

text \<open>
  C2: the total of a persisted order is \<open>round(total, 2)\<close>, but it is not always at least
  0: a quantity is any int, and a negative quantity of an item with a positive price makes
  the total negative. One item \<open>A\<close> (10.0) with the quantity \<open>-1\<close> is accepted and
  persisted with the total \<open>-10.0\<close>, against \<open>total: float, ge=0\<close> of the schema
  \<open>Order\<close>.
\<close>

theorem negative_quantity_persists_negative_total:
  "place_order (Some example_store) (request [\<lparr>menuitem_id = str_oid 2, quantity = - 1\<rparr>]) =
   (Inr \<lparr>resp_id = str_oid 4, resp_total = Finite (- 10), resp_status = ''placed''\<rparr>,
    Some (example_store
      \<lparr>coll_order :=
         [(4, order_of [\<lparr>oi_menuitem_id = str_oid 2, oi_quantity = - 1, oi_price = Finite 10\<rparr>]
                (Finite (- 10)))],
       next_oid := 5\<rparr>)) \<and>
   o_total (order_of [\<lparr>oi_menuitem_id = str_oid 2, oi_quantity = - 1, oi_price = Finite 10\<rparr>]
              (Finite (- 10))) = Some (Finite (- 10)) \<and>
   \<not> ge_zero (Finite (- 10))"
proof -
  let ?p = "request [\<lparr>menuitem_id = str_oid 2, quantity = - 1\<rparr>]"
  have i: "items ?p = [\<lparr>menuitem_id = str_oid 2, quantity = - 1\<rparr>]"
    by (simp add: request_def)
  have v: "list_all is_valid (map menuitem_id (items ?p))"
    unfolding i by (simp add: is_valid_str_oid)
  have q: "list_all (\<lambda>i. int64 (quantity i)) (items ?p)"
    unfolding i by (simp add: int64_small)
  have a: "list_all2 (\<lambda>i a. float_mul_int (snapshot_price example_store (menuitem_id i)) (quantity i) = Inr a)
      (items ?p) [Finite (- 10)]"
    unfolding i by (simp add: snapshot_price_example float_mul_10_neg)
  have "place_order (Some example_store) ?p =
   (Inr \<lparr>resp_id = str_oid 4, resp_total = Finite (- 10), resp_status = ''placed''\<rparr>,
    Some (example_store
      \<lparr>coll_order :=
         [(4, order_of [\<lparr>oi_menuitem_id = str_oid 2, oi_quantity = - 1, oi_price = Finite 10\<rparr>]
                (Finite (- 10)))],
       next_oid := 5\<rparr>))"
    unfolding place_order_eq [OF example_store_answered_2 v q a]
    by (simp add: i snapshot_price_example new_order_def order_of_def fadd_0_neg10 py_round_neg10)
      (simp add: example_store_def request_def)
  then show ?thesis by (simp add: order_of_def)
qed

subsection \<open>Seeding\<close>

lemma answered_fields [simp]:
  "answered k (s\<lparr>coll_restaurant := cr\<rparr>) = answered k s"
  "answered k (s\<lparr>coll_menuitem := cm\<rparr>) = answered k s"
  "answered k (s\<lparr>coll_order := co\<rparr>) = answered k s"
  "answered k (s\<lparr>next_oid := n\<rparr>) = answered k s"
  by (simp_all add: answered_def)

lemma answered_mono: "answered k s \<Longrightarrow> j \<le> k \<Longrightarrow> answered j s"
proof -
  assume a: "answered k s" and jk: "j \<le> k"
  from jk have "set (take j (faults s)) \<subseteq> set (take k (faults s))"
    by (rule set_take_subset_set_take)
  with a show ?thesis unfolding answered_def list_all_iff by blast
qed

lemma count_documents_restaurant_Inr:
  "count_documents_restaurant s = (Inr n, s') \<longleftrightarrow>
     answered 1 s \<and> s' = s\<lparr>faults := tl (faults s)\<rparr> \<and> n = length (coll_restaurant s)"
  unfolding count_documents_restaurant_def query_Inr by auto

lemma insert_one_restaurant_Inr:
  "insert_one_restaurant r s = (Inr oid, s') \<longleftrightarrow>
     answered 1 s \<and> oid = next_oid s \<and>
     s' = s\<lparr>faults := tl (faults s), coll_restaurant := coll_restaurant s @ [(next_oid s, r)],
           next_oid := next_oid s + 1\<rparr>"
  by (cases s) (auto simp: insert_one_restaurant_def sbind_Inr round_trip_Inr)

lemma insert_many_menuitem_Inr:
  "insert_many_menuitem ms s = (Inr ids, s') \<longleftrightarrow>
     answered 1 s \<and> ids = map (\<lambda>i. next_oid s + of_nat i) [0..<length ms] \<and>
     s' = s\<lparr>faults := tl (faults s),
           coll_menuitem := coll_menuitem s @ zip (map (\<lambda>i. next_oid s + of_nat i) [0..<length ms]) ms,
           next_oid := next_oid s + of_nat (length ms)\<rparr>"
  by (cases s) (auto simp: insert_many_menuitem_def sbind_Inr round_trip_Inr Let_def)

lemma length_seed_menu: "length (seed_menu a b) = 4"
  by (simp add: seed_menu_def)

lemma upt_4: "[0..<4] = [0, 1, 2, 3]"
  by code_simp

lemma seed_menu_restaurant_ids:
  "map m_restaurant_id (seed_menu a b) = [str_oid a, str_oid a, str_oid b, str_oid b]"
  by (simp add: seed_menu_def)


lemma answered_3: "answered 3 s \<longleftrightarrow> answered 1 s \<and> answered 2 (s\<lparr>faults := tl (faults s)\<rparr>)"
  using answered_Suc [of 2 s] by simp

lemma answered_4: "answered 4 s \<longleftrightarrow> answered 1 s \<and> answered 3 (s\<lparr>faults := tl (faults s)\<rparr>)"
  using answered_Suc [of 3 s] by simp

lemma answered_5: "answered 5 s \<longleftrightarrow> answered 1 s \<and> answered 4 (s\<lparr>faults := tl (faults s)\<rparr>)"
  using answered_Suc [of 4 s] by simp

lemma answered_faults [simp]: "answered k (s\<lparr>faults := f\<rparr>) = list_all (\<lambda>f. f = None) (take k f)"
  by (simp add: answered_def)

lemma seed_body_Inr:
  "seed_body s = (Inr r, s') \<longleftrightarrow>
     r = status_ok \<and>
     (if coll_restaurant s = [] then
        answered 4 s \<and>
        s' = s\<lparr>faults := tl (tl (tl (tl (faults s)))),
              coll_restaurant := [(next_oid s, spice_route), (next_oid s + 1, pasta_palace)],
              coll_menuitem := coll_menuitem s @
                zip [next_oid s + 2, next_oid s + 3, next_oid s + 4, next_oid s + 5]
                  (seed_menu (next_oid s) (next_oid s + 1)),
              next_oid := next_oid s + 6\<rparr>
      else answered 1 s \<and> s' = s\<lparr>faults := tl (faults s)\<rparr>)"
proof (cases "coll_restaurant s = []")
  case True
  then show ?thesis
    unfolding seed_body_def sbind_Inr [of count_documents_restaurant] count_documents_restaurant_Inr
      answered_4 answered_3 answered_2
    by (cases s)
      (auto simp: sbind_Inr insert_one_restaurant_Inr insert_many_menuitem_Inr sreturn_def
        length_seed_menu upt_4 answered_def add.commute)
next
  case False
  then show ?thesis
    unfolding seed_body_def sbind_Inr [of count_documents_restaurant] count_documents_restaurant_Inr
    by (auto simp: sreturn_def)
qed


lemma seed_Inr:
  "seed db = (Inr r, db') \<longleftrightarrow>
     (\<exists>s s'. db = Some s \<and> db' = Some s' \<and> seed_body s = (Inr r, s'))"
  unfolding seed_def by (rule handler_Inr)

lemma seed_body_empty:
  "coll_restaurant s = [] \<Longrightarrow> answered 4 s \<Longrightarrow>
     seed_body s = (Inr status_ok, s\<lparr>faults := tl (tl (tl (tl (faults s)))),
              coll_restaurant := [(next_oid s, spice_route), (next_oid s + 1, pasta_palace)],
              coll_menuitem := coll_menuitem s @
                zip [next_oid s + 2, next_oid s + 3, next_oid s + 4, next_oid s + 5]
                  (seed_menu (next_oid s) (next_oid s + 1)),
              next_oid := next_oid s + 6\<rparr>)"
  by (simp add: seed_body_Inr)

lemma seed_body_nonempty:
  "coll_restaurant s \<noteq> [] \<Longrightarrow> answered 1 s \<Longrightarrow>
     seed_body s = (Inr status_ok, s\<lparr>faults := tl (faults s)\<rparr>)"
  by (simp add: seed_body_Inr)

lemma seed_Some: "seed_body s = (Inr r, s') \<Longrightarrow> seed (Some s) = (Inr r, Some s')"
  by (simp add: seed_Inr)

text \<open>
  C4: seeding is idempotent. A successful invocation returns \<open>{"status": "ok"}\<close> and
  leaves the orders as they are. When it finds the restaurant collection empty it inserts
  the two restaurants, under the next two identities, and the four menu items, under the
  four after them, the first two with the string form of the first restaurant's identity
  as \<open>restaurant_id\<close> and the last two with that of the second; when it finds a
  restaurant it inserts nothing. It succeeds when the store answers its round trips (one
  to count, three to insert), and invoked twice from a store with no restaurant and no
  menu item it leaves 2 restaurants and 4 menu items, the second invocation changing
  neither.
\<close>

theorem seed_idempotent:
  "(seed db = (Inr r, db') \<longrightarrow>
      r = status_ok \<and>
      (\<exists>t t'. db = Some t \<and> db' = Some t' \<and> coll_order t' = coll_order t \<and>
         (coll_restaurant t = [] \<longrightarrow>
            coll_restaurant t' = [(next_oid t, spice_route), (next_oid t + 1, pasta_palace)] \<and>
            coll_menuitem t' = coll_menuitem t @
              zip [next_oid t + 2, next_oid t + 3, next_oid t + 4, next_oid t + 5]
                (seed_menu (next_oid t) (next_oid t + 1)) \<and>
            map (\<lambda>d. m_restaurant_id (snd d)) (drop (length (coll_menuitem t)) (coll_menuitem t')) =
              [str_oid (next_oid t), str_oid (next_oid t),
               str_oid (next_oid t + 1), str_oid (next_oid t + 1)]) \<and>
         (coll_restaurant t \<noteq> [] \<longrightarrow>
            coll_restaurant t' = coll_restaurant t \<and> coll_menuitem t' = coll_menuitem t \<and>
            next_oid t' = next_oid t))) \<and>
   (answered 4 s \<longrightarrow> (\<exists>s'. seed (Some s) = (Inr status_ok, Some s'))) \<and>
   (coll_restaurant s = [] \<and> coll_menuitem s = [] \<and> answered 5 s \<longrightarrow>
      (\<exists>s1 s2. seed (Some s) = (Inr status_ok, Some s1) \<and>
         seed (Some s1) = (Inr status_ok, Some s2) \<and>
         length (coll_restaurant s1) = 2 \<and> length (coll_menuitem s1) = 4 \<and>
         coll_restaurant s2 = coll_restaurant s1 \<and> coll_menuitem s2 = coll_menuitem s1 \<and>
         coll_order s2 = coll_order s \<and> next_oid s2 = next_oid s1))"
proof (intro conjI impI)
  assume "seed db = (Inr r, db')"
  then obtain t t' where t: "db = Some t" "db' = Some t'"
    and body: "seed_body t = (Inr r, t')"
    unfolding seed_Inr by (elim exE conjE)
  from body show "r = status_ok" by (simp add: seed_body_Inr)
  have 1: "coll_order t' = coll_order t"
    using body by (cases "coll_restaurant t = []") (simp_all add: seed_body_Inr)
  have 2: "coll_restaurant t = [] \<longrightarrow>
            coll_restaurant t' = [(next_oid t, spice_route), (next_oid t + 1, pasta_palace)] \<and>
            coll_menuitem t' = coll_menuitem t @
              zip [next_oid t + 2, next_oid t + 3, next_oid t + 4, next_oid t + 5]
                (seed_menu (next_oid t) (next_oid t + 1)) \<and>
            map (\<lambda>d. m_restaurant_id (snd d)) (drop (length (coll_menuitem t)) (coll_menuitem t')) =
              [str_oid (next_oid t), str_oid (next_oid t),
               str_oid (next_oid t + 1), str_oid (next_oid t + 1)]"
    using body by (simp add: seed_body_Inr seed_menu_def)
  have 3: "coll_restaurant t \<noteq> [] \<longrightarrow>
            coll_restaurant t' = coll_restaurant t \<and> coll_menuitem t' = coll_menuitem t \<and>
            next_oid t' = next_oid t"
    using body by (simp add: seed_body_Inr)
  from t 1 2 3 show "\<exists>t t'. db = Some t \<and> db' = Some t' \<and> coll_order t' = coll_order t \<and>
         (coll_restaurant t = [] \<longrightarrow>
            coll_restaurant t' = [(next_oid t, spice_route), (next_oid t + 1, pasta_palace)] \<and>
            coll_menuitem t' = coll_menuitem t @
              zip [next_oid t + 2, next_oid t + 3, next_oid t + 4, next_oid t + 5]
                (seed_menu (next_oid t) (next_oid t + 1)) \<and>
            map (\<lambda>d. m_restaurant_id (snd d)) (drop (length (coll_menuitem t)) (coll_menuitem t')) =
              [str_oid (next_oid t), str_oid (next_oid t),
               str_oid (next_oid t + 1), str_oid (next_oid t + 1)]) \<and>
         (coll_restaurant t \<noteq> [] \<longrightarrow>
            coll_restaurant t' = coll_restaurant t \<and> coll_menuitem t' = coll_menuitem t \<and>
            next_oid t' = next_oid t)"
    by (intro exI [of _ t] exI [of _ t'] conjI)
next
  assume a: "answered 4 s"
  show "\<exists>s'. seed (Some s) = (Inr status_ok, Some s')"
  proof (cases "coll_restaurant s = []")
    case True
    from seed_Some [OF seed_body_empty [OF True a]] show ?thesis by (rule exI)
  next
    case False
    from a have "answered 1 s" by (rule answered_mono) simp
    from seed_Some [OF seed_body_nonempty [OF False this]] show ?thesis by (rule exI)
  qed
next
  assume "coll_restaurant s = [] \<and> coll_menuitem s = [] \<and> answered 5 s"
  then have e: "coll_restaurant s = []" and m: "coll_menuitem s = []" and a: "answered 5 s"
    by simp_all
  let ?s1 = "s\<lparr>faults := tl (tl (tl (tl (faults s)))),
              coll_restaurant := [(next_oid s, spice_route), (next_oid s + 1, pasta_palace)],
              coll_menuitem := coll_menuitem s @
                zip [next_oid s + 2, next_oid s + 3, next_oid s + 4, next_oid s + 5]
                  (seed_menu (next_oid s) (next_oid s + 1)),
              next_oid := next_oid s + 6\<rparr>"
  let ?s2 = "?s1\<lparr>faults := tl (faults ?s1)\<rparr>"
  from a have a4: "answered 4 s" by (rule answered_mono) simp
  from a have "list_all (\<lambda>f. f = None) (take 1 (tl (tl (tl (tl (faults s))))))"
    unfolding answered_5 answered_4 answered_3 answered_2 by (simp add: answered_def)
  then have a1: "answered 1 ?s1" by (simp add: answered_def)
  have ne: "coll_restaurant ?s1 \<noteq> []" by simp
  have 1: "seed (Some s) = (Inr status_ok, Some ?s1)"
    by (rule seed_Some [OF seed_body_empty [OF e a4]])
  have 2: "seed (Some ?s1) = (Inr status_ok, Some ?s2)"
    by (rule seed_Some [OF seed_body_nonempty [OF ne a1]])
  have 3: "length (coll_restaurant ?s1) = 2" by simp
  have 4: "length (coll_menuitem ?s1) = 4" by (simp add: m length_seed_menu)
  have 5: "coll_restaurant ?s2 = coll_restaurant ?s1" "coll_menuitem ?s2 = coll_menuitem ?s1"
    "coll_order ?s2 = coll_order s" "next_oid ?s2 = next_oid ?s1"
    by simp_all
  from 1 2 3 4 5 show "\<exists>s1 s2. seed (Some s) = (Inr status_ok, Some s1) \<and>
         seed (Some s1) = (Inr status_ok, Some s2) \<and>
         length (coll_restaurant s1) = 2 \<and> length (coll_menuitem s1) = 4 \<and>
         coll_restaurant s2 = coll_restaurant s1 \<and> coll_menuitem s2 = coll_menuitem s1 \<and>
         coll_order s2 = coll_order s \<and> next_oid s2 = next_oid s1"
    by (intro exI [of _ ?s1] exI [of _ ?s2] conjI)
qed

theorem seed_idempotent_witness:
  "coll_restaurant empty_store = [] \<and> coll_menuitem empty_store = [] \<and> answered 5 empty_store \<and>
   (\<exists>s1 s2. seed (Some empty_store) = (Inr status_ok, Some s1) \<and>
      seed (Some s1) = (Inr status_ok, Some s2) \<and>
      length (coll_restaurant s1) = 2 \<and> length (coll_menuitem s1) = 4 \<and>
      coll_restaurant s2 = coll_restaurant s1 \<and> coll_menuitem s2 = coll_menuitem s1 \<and>
      coll_order s2 = coll_order empty_store \<and> next_oid s2 = next_oid s1 \<and>
      coll_restaurant s1 = [(1, spice_route), (2, pasta_palace)] \<and>
      map fst (coll_menuitem s1) = [3, 4, 5, 6] \<and>
      map (\<lambda>d. m_restaurant_id (snd d)) (coll_menuitem s1) =
        [str_oid 1, str_oid 1, str_oid 2, str_oid 2])"
proof -
  have h: "coll_restaurant empty_store = [] \<and> coll_menuitem empty_store = [] \<and>
      answered 5 empty_store"
    by (simp add: empty_store_def answered_def)
  from seed_idempotent [where s = empty_store, THEN conjunct2, THEN conjunct2, THEN mp, OF h]
  obtain s1 s2 where 1: "seed (Some empty_store) = (Inr status_ok, Some s1)"
    and 2: "seed (Some s1) = (Inr status_ok, Some s2)"
    and 3: "length (coll_restaurant s1) = 2" "length (coll_menuitem s1) = 4"
      "coll_restaurant s2 = coll_restaurant s1" "coll_menuitem s2 = coll_menuitem s1"
      "coll_order s2 = coll_order empty_store" "next_oid s2 = next_oid s1"
    by (elim exE conjE)
  from seed_idempotent [where db = "Some empty_store" and r = status_ok and db' = "Some s1",
      THEN conjunct1, THEN mp, OF 1]
  obtain t t' where t: "Some empty_store = Some t" "Some s1 = Some t'"
    and r: "coll_restaurant t = [] \<longrightarrow>
            coll_restaurant t' = [(next_oid t, spice_route), (next_oid t + 1, pasta_palace)] \<and>
            coll_menuitem t' = coll_menuitem t @
              zip [next_oid t + 2, next_oid t + 3, next_oid t + 4, next_oid t + 5]
                (seed_menu (next_oid t) (next_oid t + 1)) \<and>
            map (\<lambda>d. m_restaurant_id (snd d)) (drop (length (coll_menuitem t)) (coll_menuitem t')) =
              [str_oid (next_oid t), str_oid (next_oid t),
               str_oid (next_oid t + 1), str_oid (next_oid t + 1)]"
    by (elim exE conjE)
  from t have ts: "t = empty_store" "t' = s1" by simp_all
  have e0: "coll_restaurant t = []" unfolding ts by (simp add: empty_store_def)
  note rr = r [THEN mp, OF e0]
  from rr [THEN conjunct1] have 4: "coll_restaurant s1 = [(1, spice_route), (2, pasta_palace)]"
    unfolding ts by (simp add: empty_store_def)
  from rr [THEN conjunct2, THEN conjunct1]
  have 5: "coll_menuitem s1 = zip [3, 4, 5, 6] (seed_menu 1 2)"
    unfolding ts by (simp add: empty_store_def)
  from rr [THEN conjunct2, THEN conjunct2]
  have 6: "map (\<lambda>d. m_restaurant_id (snd d)) (coll_menuitem s1) =
        [str_oid 1, str_oid 1, str_oid 2, str_oid 2]"
    unfolding ts by (simp add: empty_store_def)
  from 5 have 7: "map fst (coll_menuitem s1) = [3, 4, 5, 6]" by (simp add: seed_menu_def)
  from 1 2 3 4 6 7 have "\<exists>s1 s2. seed (Some empty_store) = (Inr status_ok, Some s1) \<and>
      seed (Some s1) = (Inr status_ok, Some s2) \<and>
      length (coll_restaurant s1) = 2 \<and> length (coll_menuitem s1) = 4 \<and>
      coll_restaurant s2 = coll_restaurant s1 \<and> coll_menuitem s2 = coll_menuitem s1 \<and>
      coll_order s2 = coll_order empty_store \<and> next_oid s2 = next_oid s1 \<and>
      coll_restaurant s1 = [(1, spice_route), (2, pasta_palace)] \<and>
      map fst (coll_menuitem s1) = [3, 4, 5, 6] \<and>
      map (\<lambda>d. m_restaurant_id (snd d)) (coll_menuitem s1) =
        [str_oid 1, str_oid 1, str_oid 2, str_oid 2]"
    by (intro exI [of _ s1] exI [of _ s2] conjI)
  with h show ?thesis by (intro conjI) simp_all
qed

end
